theory Spec2Isabelle
  imports Main
begin

section \<open>Data model\<close>

text \<open>
  The structured error of the provider SDK (\<open>oci.exceptions.ServiceError\<close>). The
  source reads three attributes: \<open>e.status\<close>, \<open>e.code\<close> and \<open>e.message\<close>. The SDK
  fills \<open>code\<close> and \<open>message\<close> from the response body, so each of them may be
  \<open>None\<close>; a comparison \<open>e.code == "..."\<close> with \<open>None\<close> is just false, while the
  membership test \<open>"..." in e.message\<close> raises \<open>TypeError\<close> on \<open>None\<close>.
\<close>

record ServiceError =
  status :: int
  code :: "string option"
  message :: "string option"

text \<open>
  What \<open>launch_new_instance\<close> can raise. The three \<open>RuntimeError\<close>s of the engine are
  told apart by their message:
  \<^item> \<open>NO_ZONES_AVAILABLE\<close>: "No availability domains found matching patterns: ..." (line 245);
  \<^item> \<open>VERIFICATION_TIMEOUT\<close>: "Instance verification failed." (line 298);
  \<^item> \<open>QUOTA_EXCEEDED_OTHER_RESOURCE\<close>: "LimitExceeded for a resource other than the
    target instance shape. ..." (line 308);
  \<^item> \<open>NO_SUBNETS\<close> (line 177) and \<open>NO_IMAGE\<close> (line 196) come from the two lookups.
  A \<open>ServiceError\<close> that is re-raised keeps the provider's error value. \<open>TypeError\<close>
  comes from the membership test on a \<open>None\<close> message, \<open>ValueError\<close> from
  \<open>time.sleep\<close> on a negative number of seconds.
\<close>

datatype runtime_error =
  NO_ZONES_AVAILABLE | NO_SUBNETS | NO_IMAGE | VERIFICATION_TIMEOUT | QUOTA_EXCEEDED_OTHER_RESOURCE

datatype exn = ServiceErr ServiceError | RuntimeErr runtime_error | TypeError | ValueError

record Instance =
  inst_id :: string
  display_name :: string
  shape :: string
  lifecycle_state :: string
  availability_domain :: string

record Image =
  img_id :: string
  operating_system :: string
  operating_system_version :: string

text \<open>
  The fields of \<open>Config\<close> that the engine reads. \<open>wait_time_secs\<close> is
  \<open>int(REQUEST_WAIT_TIME_SECS)\<close> and is not validated, so it may be negative.
\<close>

record Config =
  free_ad_list :: "string list"
  wait_time_secs :: int
  compute_shape :: string
  is_second_micro_instance :: bool
  subnet_id :: "string option"
  image_id :: "string option"
  os :: string
  os_version :: string

definition ARM_SHAPE :: string where
  "ARM_SHAPE = ''VM.Standard.A1.Flex''"

definition E2_MICRO_SHAPE :: string where
  "E2_MICRO_SHAPE = ''VM.Standard.E2.1.Micro''"

definition VALID_SHAPES :: "string list" where
  "VALID_SHAPES = [ARM_SHAPE, E2_MICRO_SHAPE]"

section \<open>The provider and the trace of a run\<close>

text \<open>
  The provider is outside the program. Each API method is a function from the number of
  earlier calls of that method to its response: the error it raises (\<open>Inl\<close>) or the data
  it returns. \<open>launch_instance\<close> returns nothing useful, so its response is the error, if
  any. A run of the engine is deterministic, so this covers every provider behaviour.
\<close>

record Provider =
  list_availability_domains :: "nat \<Rightarrow> ServiceError + string list"
  list_subnets :: "nat \<Rightarrow> ServiceError + string list"
  list_images :: "nat \<Rightarrow> ServiceError + Image list"
  list_instances :: "nat \<Rightarrow> ServiceError + Instance list"
  launch_instance :: "nat \<Rightarrow> ServiceError option"

datatype api = ListAvailabilityDomains | ListSubnets | ListImages | ListInstances

text \<open>
  The observable effects of a run, in the order they happen: a provider call made through
  \<open>_execute_api_call\<close>, the direct \<open>launch_instance\<close> call with the availability domain of
  the request, a \<open>time.sleep\<close>, and an entry into \<open>check_for_existing_instance\<close>.
\<close>

datatype event = ApiCall api | LaunchInstance string | Sleep int | CheckForExisting

definition n_calls :: "api \<Rightarrow> event list \<Rightarrow> nat" where
  "n_calls m tr = length (filter (\<lambda>ev. ev = ApiCall m) tr)"

fun is_launch :: "event \<Rightarrow> bool" where
  "is_launch (LaunchInstance ad) = True"
| "is_launch ev = False"

definition n_launches :: "event list \<Rightarrow> nat" where
  "n_launches tr = length (filter is_launch tr)"

fun is_provider_call :: "event \<Rightarrow> bool" where
  "is_provider_call (ApiCall m) = True"
| "is_provider_call (LaunchInstance ad) = True"
| "is_provider_call ev = False"

definition n_checks :: "event list \<Rightarrow> nat" where
  "n_checks tr = length (filter (\<lambda>ev. ev = CheckForExisting) tr)"

text \<open>\<open>time.sleep(secs)\<close>: it raises \<open>ValueError\<close> when \<open>secs\<close> is negative, and nothing is
  slept then.\<close>

definition sleep :: "int \<Rightarrow> event list \<Rightarrow> exn + event list" where
  "sleep secs tr = (if secs < 0 then Inl ValueError else Inr (tr @ [Sleep secs]))"

section \<open>Error classification\<close>

text \<open>Python's \<open>needle in haystack\<close> on strings.\<close>

fun str_in :: "string \<Rightarrow> string \<Rightarrow> bool" where
  "str_in needle [] = (needle = [])"
| "str_in needle (c # cs) = (take (length needle) (c # cs) = needle \<or> str_in needle cs)"

text \<open>
  The condition of lines 153 and 311,
  \<^verbatim>\<open>e.status in [429, 500, 502, 503, 504] or e.code == "TooManyRequests" or "Out of host capacity" in e.message\<close>,
  with Python's left-to-right \<open>or\<close>: the message is only looked at when the first two
  tests fail, and then a \<open>None\<close> message raises \<open>TypeError\<close>.
\<close>

definition is_temporary :: "ServiceError \<Rightarrow> exn + bool" where
  "is_temporary e =
     (if status e \<in> set [429, 500, 502, 503, 504] then Inr True
      else if code e = Some ''TooManyRequests'' then Inr True
      else (case message e of
              None \<Rightarrow> Inl TypeError
            | Some m \<Rightarrow> Inr (str_in ''Out of host capacity'' m)))"

datatype classification = RETRYABLE | QUOTA_EXCEEDED | FATAL

text \<open>
  The branch taken by the \<open>except ServiceError\<close> handler of \<open>launch_new_instance\<close>
  (lines 300 to 318): the quota code first, then the temporary errors, then the rest.
\<close>

definition classify_launch :: "ServiceError \<Rightarrow> exn + classification" where
  "classify_launch e =
     (if code e = Some ''LimitExceeded'' then Inr QUOTA_EXCEEDED
      else (case is_temporary e of
              Inl x \<Rightarrow> Inl x
            | Inr True \<Rightarrow> Inr RETRYABLE
            | Inr False \<Rightarrow> Inr FATAL))"

text \<open>
  The branch taken by the handler of \<open>_execute_api_call\<close> (lines 151 to 164): the
  temporary errors first, then (\<open>elif\<close>) the quota code, then the rest.
\<close>

definition classify_api_call :: "ServiceError \<Rightarrow> exn + classification" where
  "classify_api_call e =
     (case is_temporary e of
        Inl x \<Rightarrow> Inl x
      | Inr True \<Rightarrow> Inr RETRYABLE
      | Inr False \<Rightarrow> (if code e = Some ''LimitExceeded'' then Inr QUOTA_EXCEEDED else Inr FATAL))"

section \<open>The API wrapper\<close>

text \<open>
  \<open>_execute_api_call\<close>: \<open>while True\<close>, call the method; on a temporary error sleep
  \<open>wait_time_secs\<close> and call again; re-raise every other \<open>ServiceError\<close>. An exception
  of \<open>time.sleep\<close> is raised inside the handler and leaves the function. The loop has no
  bound, so the function is partial: \<open>None\<close> is a run that never returns.
\<close>

partial_function (option) execute_api_call ::
  "Config \<Rightarrow> api \<Rightarrow> (nat \<Rightarrow> ServiceError + 'a) \<Rightarrow> event list \<Rightarrow> ((exn + 'a) \<times> event list) option"
where
  "execute_api_call cfg m resp tr =
     (case resp (n_calls m tr) of
        Inr data \<Rightarrow> Some (Inr data, tr @ [ApiCall m])
      | Inl e \<Rightarrow>
          (case classify_api_call e of
             Inl x \<Rightarrow> Some (Inl x, tr @ [ApiCall m])
           | Inr RETRYABLE \<Rightarrow>
               (case sleep (wait_time_secs cfg) (tr @ [ApiCall m]) of
                  Inl x \<Rightarrow> Some (Inl x, tr @ [ApiCall m])
                | Inr tr' \<Rightarrow> execute_api_call cfg m resp tr')
           | Inr QUOTA_EXCEEDED \<Rightarrow> Some (Inl (ServiceErr e), tr @ [ApiCall m])
           | Inr FATAL \<Rightarrow> Some (Inl (ServiceErr e), tr @ [ApiCall m])))"

declare execute_api_call.simps [code]

section \<open>Lookups\<close>

definition endswith :: "string \<Rightarrow> string \<Rightarrow> bool" where
  "endswith s suf = (length suf \<le> length s \<and> drop (length s - length suf) s = suf)"

definition matching_ads :: "Config \<Rightarrow> string list \<Rightarrow> string list" where
  "matching_ads cfg all_ads =
     filter (\<lambda>name. list_ex (\<lambda>free_ad. endswith name free_ad) (free_ad_list cfg)) all_ads"

definition find_availability_domains ::
  "Config \<Rightarrow> Provider \<Rightarrow> event list \<Rightarrow> ((exn + string list) \<times> event list) option" where
  "find_availability_domains cfg prov tr =
     (case execute_api_call cfg ListAvailabilityDomains (list_availability_domains prov) tr of
        None \<Rightarrow> None
      | Some (Inl x, tr') \<Rightarrow> Some (Inl x, tr')
      | Some (Inr all_ads, tr') \<Rightarrow> Some (Inr (matching_ads cfg all_ads), tr'))"

text \<open>Python's truth value of an optional string: \<open>None\<close> and \<open>""\<close> are false.\<close>

fun truthy :: "string option \<Rightarrow> bool" where
  "truthy None = False"
| "truthy (Some s) = (s \<noteq> [])"

definition find_subnet_id ::
  "Config \<Rightarrow> Provider \<Rightarrow> event list \<Rightarrow> ((exn + string) \<times> event list) option" where
  "find_subnet_id cfg prov tr =
     (if truthy (subnet_id cfg) then Some (Inr (the (subnet_id cfg)), tr)
      else (case execute_api_call cfg ListSubnets (list_subnets prov) tr of
              None \<Rightarrow> None
            | Some (Inl x, tr') \<Rightarrow> Some (Inl x, tr')
            | Some (Inr [], tr') \<Rightarrow> Some (Inl (RuntimeErr NO_SUBNETS), tr')
            | Some (Inr (s # subnets), tr') \<Rightarrow> Some (Inr s, tr')))"

definition find_image_id ::
  "Config \<Rightarrow> Provider \<Rightarrow> event list \<Rightarrow> ((exn + string) \<times> event list) option" where
  "find_image_id cfg prov tr =
     (if truthy (image_id cfg) then Some (Inr (the (image_id cfg)), tr)
      else (case execute_api_call cfg ListImages (list_images prov) tr of
              None \<Rightarrow> None
            | Some (Inl x, tr') \<Rightarrow> Some (Inl x, tr')
            | Some (Inr images, tr') \<Rightarrow>
                (case filter (\<lambda>img. operating_system img = os cfg
                                    \<and> operating_system_version img = os_version cfg) images of
                   [] \<Rightarrow> Some (Inl (RuntimeErr NO_IMAGE), tr')
                 | img # rest \<Rightarrow> Some (Inr (img_id img), tr'))))"

section \<open>The existing-instance finder\<close>

definition target_instances :: "Config \<Rightarrow> Instance list \<Rightarrow> Instance list" where
  "target_instances cfg instances =
     filter (\<lambda>inst. shape inst = compute_shape cfg
                  \<and> lifecycle_state inst \<in> set [''RUNNING'', ''PROVISIONING'', ''STARTING''])
       instances"

text \<open>
  The selection of lines 206 to 220. \<open>target[0]\<close> and \<open>target[-1]\<close> are only read on a
  non-empty list.
\<close>

definition select_existing :: "Config \<Rightarrow> Instance list \<Rightarrow> Instance option" where
  "select_existing cfg instances =
     (let target = target_instances cfg instances in
      if compute_shape cfg = ARM_SHAPE \<and> target \<noteq> [] then Some (hd target)
      else if compute_shape cfg = E2_MICRO_SHAPE then
        (if is_second_micro_instance cfg \<and> 2 \<le> length target then Some (last target)
         else if \<not> is_second_micro_instance cfg \<and> 1 \<le> length target then Some (hd target)
         else None)
      else None)"

definition check_for_existing_instance ::
  "Config \<Rightarrow> Provider \<Rightarrow> event list \<Rightarrow> ((exn + Instance option) \<times> event list) option" where
  "check_for_existing_instance cfg prov tr =
     (case execute_api_call cfg ListInstances (list_instances prov) (tr @ [CheckForExisting]) of
        None \<Rightarrow> None
      | Some (Inl x, tr') \<Rightarrow> Some (Inl x, tr')
      | Some (Inr instances, tr') \<Rightarrow> Some (Inr (select_existing cfg instances), tr'))"

section \<open>The launch loop\<close>

text \<open>\<open>next(ad_cycler)\<close> on \<open>itertools.cycle(ads)\<close>, for a non-empty \<open>ads\<close>: the state of the
  iterator is the number of values it has produced.\<close>

definition cycle_next :: "string list \<Rightarrow> nat \<Rightarrow> string \<times> nat" where
  "cycle_next ads pos = (ads ! (pos mod length ads), Suc pos)"

text \<open>
  The \<open>for _ in range(5)\<close> loop of lines 290 to 298, with the number of rounds left:
  each round asks the finder, returns the instance if there is one, and sleeps 60
  otherwise (\<open>time.sleep(60)\<close> cannot raise). After the last round the \<open>RuntimeError\<close> of line 298 is raised. An exception
  of the finder leaves the loop.
\<close>

fun confirm ::
  "Config \<Rightarrow> Provider \<Rightarrow> nat \<Rightarrow> event list \<Rightarrow> ((exn + Instance) \<times> event list) option" where
  "confirm cfg prov 0 tr = Some (Inl (RuntimeErr VERIFICATION_TIMEOUT), tr)"
| "confirm cfg prov (Suc n) tr =
     (case check_for_existing_instance cfg prov tr of
        None \<Rightarrow> None
      | Some (Inl x, tr') \<Rightarrow> Some (Inl x, tr')
      | Some (Inr (Some inst), tr') \<Rightarrow> Some (Inr inst, tr')
      | Some (Inr None, tr') \<Rightarrow> confirm cfg prov n (tr' @ [Sleep 60]))"

text \<open>The body of the \<open>try\<close> (lines 283 to 298) for the availability domain \<open>ad\<close>.\<close>

definition attempt ::
  "Config \<Rightarrow> Provider \<Rightarrow> string \<Rightarrow> event list \<Rightarrow> ((exn + Instance) \<times> event list) option" where
  "attempt cfg prov ad tr =
     (case launch_instance prov (n_launches tr) of
        Some e \<Rightarrow> Some (Inl (ServiceErr e), tr @ [LaunchInstance ad])
      | None \<Rightarrow> confirm cfg prov 5 (tr @ [LaunchInstance ad]))"

text \<open>
  The \<open>while True\<close> of lines 280 to 318. Only a \<open>ServiceError\<close> raised in the \<open>try\<close> reaches
  the handler; an exception raised inside the handler leaves the function.
\<close>

partial_function (option) launch_loop ::
  "Config \<Rightarrow> Provider \<Rightarrow> string list \<Rightarrow> nat \<Rightarrow> event list \<Rightarrow> ((exn + Instance) \<times> event list) option"
where
  "launch_loop cfg prov ads pos tr =
     (case attempt cfg prov (fst (cycle_next ads pos)) tr of
        None \<Rightarrow> None
      | Some (Inr inst, tr') \<Rightarrow> Some (Inr inst, tr')
      | Some (Inl (RuntimeErr r), tr') \<Rightarrow> Some (Inl (RuntimeErr r), tr')
      | Some (Inl TypeError, tr') \<Rightarrow> Some (Inl TypeError, tr')
      | Some (Inl ValueError, tr') \<Rightarrow> Some (Inl ValueError, tr')
      | Some (Inl (ServiceErr e), tr') \<Rightarrow>
          (case classify_launch e of
             Inl x \<Rightarrow> Some (Inl x, tr')
           | Inr QUOTA_EXCEEDED \<Rightarrow>
               (case check_for_existing_instance cfg prov tr' of
                  None \<Rightarrow> None
                | Some (Inl x, tr'') \<Rightarrow> Some (Inl x, tr'')
                | Some (Inr (Some inst), tr'') \<Rightarrow> Some (Inr inst, tr'')
                | Some (Inr None, tr'') \<Rightarrow> Some (Inl (RuntimeErr QUOTA_EXCEEDED_OTHER_RESOURCE), tr''))
           | Inr RETRYABLE \<Rightarrow>
               (case sleep (wait_time_secs cfg) tr' of
                  Inl x \<Rightarrow> Some (Inl x, tr')
                | Inr tr'' \<Rightarrow> launch_loop cfg prov ads (snd (cycle_next ads pos)) tr'')
           | Inr FATAL \<Rightarrow> Some (Inl (ServiceErr e), tr')))"

declare launch_loop.simps [code]

text \<open>
  \<open>launch_new_instance\<close>. The availability domains are looked up and must not be empty;
  then the subnet and the image. Building the request calls \<open>next(ad_cycler)\<close> once
  (line 263), so the loop starts with an iterator that has already produced one value.
  Reading the SSH key is local file access and is left out.
\<close>

definition launch_new_instance ::
  "Config \<Rightarrow> Provider \<Rightarrow> event list \<Rightarrow> ((exn + Instance) \<times> event list) option" where
  "launch_new_instance cfg prov tr =
     (case find_availability_domains cfg prov tr of
        None \<Rightarrow> None
      | Some (Inl x, tr1) \<Rightarrow> Some (Inl x, tr1)
      | Some (Inr ads, tr1) \<Rightarrow>
          (if ads = [] then Some (Inl (RuntimeErr NO_ZONES_AVAILABLE), tr1)
           else (case find_subnet_id cfg prov tr1 of
                   None \<Rightarrow> None
                 | Some (Inl x, tr2) \<Rightarrow> Some (Inl x, tr2)
                 | Some (Inr subnet, tr2) \<Rightarrow>
                     (case find_image_id cfg prov tr2 of
                        None \<Rightarrow> None
                      | Some (Inl x, tr3) \<Rightarrow> Some (Inl x, tr3)
                      | Some (Inr img, tr3) \<Rightarrow>
                          launch_loop cfg prov ads (snd (cycle_next ads 0)) tr3))))"

section \<open>Example configurations and providers\<close>

text \<open>Concrete inputs on which the theorems below are evaluated.\<close>

definition cfg_arm :: Config where
  "cfg_arm = \<lparr>free_ad_list = [''AD-1'', ''AD-2'', ''AD-3''], wait_time_secs = 30,
     compute_shape = ARM_SHAPE, is_second_micro_instance = False,
     subnet_id = Some ''ocid1.subnet'', image_id = Some ''ocid1.image'',
     os = ''Oracle Linux'', os_version = ''9''\<rparr>"

definition three_ads :: "string list" where
  "three_ads = [''xyz:EU-1-AD-1'', ''xyz:EU-1-AD-2'', ''xyz:EU-1-AD-3'']"

definition arm_instance :: Instance where
  "arm_instance = \<lparr>inst_id = ''ocid1.instance.a'', display_name = ''vm'', shape = ARM_SHAPE,
     lifecycle_state = ''PROVISIONING'', availability_domain = ''xyz:EU-1-AD-1''\<rparr>"

definition err_capacity :: ServiceError where
  "err_capacity = \<lparr>status = 500, code = Some ''InternalError'',
     message = Some ''Out of host capacity.''\<rparr>"

text \<open>Two launch calls fail for lack of capacity, the third is accepted, and the new
  instance is listed at once.\<close>

definition prov_third_accepted :: Provider where
  "prov_third_accepted =
     \<lparr>list_availability_domains = (\<lambda>n. Inr three_ads),
      list_subnets = (\<lambda>n. Inr []),
      list_images = (\<lambda>n. Inr []),
      list_instances = (\<lambda>n. Inr [arm_instance]),
      launch_instance = (\<lambda>n. if n < 2 then Some err_capacity else None)\<rparr>"

text \<open>A fatal error, a quota error with the status of a rate limit, a quota error as
  the provider sends it, and an error whose body had no message.\<close>

definition err_not_found :: ServiceError where
  "err_not_found = \<lparr>status = 404, code = Some ''NotAuthorizedOrNotFound'',
     message = Some ''Authorization failed or requested resource not found.''\<rparr>"

definition err_quota :: ServiceError where
  "err_quota = \<lparr>status = 400, code = Some ''LimitExceeded'',
     message = Some ''The following service limits were exceeded: standard-a1-core-count.''\<rparr>"

definition err_quota_429 :: ServiceError where
  "err_quota_429 = \<lparr>status = 429, code = Some ''LimitExceeded'',
     message = Some ''The following service limits were exceeded: standard-a1-core-count.''\<rparr>"

definition err_no_message :: ServiceError where
  "err_no_message = \<lparr>status = 400, code = Some ''InvalidParameter'', message = None\<rparr>"

text \<open>Providers that differ from \<open>prov_third_accepted\<close> in one method.\<close>

definition prov_quota_429_on_list :: Provider where
  "prov_quota_429_on_list =
     \<lparr>list_availability_domains = (\<lambda>n. Inr three_ads),
      list_subnets = (\<lambda>n. Inr []),
      list_images = (\<lambda>n. Inr []),
      list_instances = (\<lambda>n. if n = 0 then Inl err_quota_429 else Inr []),
      launch_instance = (\<lambda>n. None)\<rparr>"

definition prov_no_message :: Provider where
  "prov_no_message =
     \<lparr>list_availability_domains = (\<lambda>n. Inr three_ads),
      list_subnets = (\<lambda>n. Inr []),
      list_images = (\<lambda>n. Inr []),
      list_instances = (\<lambda>n. Inr []),
      launch_instance = (\<lambda>n. Some err_no_message)\<rparr>"

definition prov_not_found :: Provider where
  "prov_not_found =
     \<lparr>list_availability_domains = (\<lambda>n. Inr three_ads),
      list_subnets = (\<lambda>n. Inr []),
      list_images = (\<lambda>n. Inr []),
      list_instances = (\<lambda>n. Inr []),
      launch_instance = (\<lambda>n. Some err_not_found)\<rparr>"

definition prov_quota_found :: Provider where
  "prov_quota_found =
     \<lparr>list_availability_domains = (\<lambda>n. Inr three_ads),
      list_subnets = (\<lambda>n. Inr []),
      list_images = (\<lambda>n. Inr []),
      list_instances = (\<lambda>n. Inr [arm_instance]),
      launch_instance = (\<lambda>n. Some err_quota)\<rparr>"

definition prov_quota_none :: Provider where
  "prov_quota_none =
     \<lparr>list_availability_domains = (\<lambda>n. Inr three_ads),
      list_subnets = (\<lambda>n. Inr []),
      list_images = (\<lambda>n. Inr []),
      list_instances = (\<lambda>n. Inr []),
      launch_instance = (\<lambda>n. Some err_quota)\<rparr>"

text \<open>A configuration whose suffix patterns match none of the availability domains.\<close>

definition cfg_no_zone :: Config where
  "cfg_no_zone = cfg_arm\<lparr>free_ad_list := [''AD-4'']\<rparr>"

text \<open>The number of calls that reached the provider.\<close>

definition n_provider_calls :: "event list \<Rightarrow> nat" where
  "n_provider_calls tr = length (filter is_provider_call tr)"

text \<open>Every launch call is accepted; the new instance is never listed, or is listed
  from the third listing on.\<close>

definition prov_never_listed :: Provider where
  "prov_never_listed =
     \<lparr>list_availability_domains = (\<lambda>n. Inr three_ads),
      list_subnets = (\<lambda>n. Inr []),
      list_images = (\<lambda>n. Inr []),
      list_instances = (\<lambda>n. Inr []),
      launch_instance = (\<lambda>n. None)\<rparr>"

definition prov_listed_on_third_poll :: Provider where
  "prov_listed_on_third_poll =
     \<lparr>list_availability_domains = (\<lambda>n. Inr three_ads),
      list_subnets = (\<lambda>n. Inr []),
      list_images = (\<lambda>n. Inr []),
      list_instances = (\<lambda>n. if n < 2 then Inr [] else Inr [arm_instance]),
      launch_instance = (\<lambda>n. None)\<rparr>"

text \<open>
  Rounds of the confirmation poll that find nothing, as the specification of the poll
  words them: \<open>none_rounds cfg prov tr ts\<close> says that, starting from the trace \<open>tr\<close>, as many
  consecutive queries of the finder as \<open>ts\<close> has elements return none, the \<open>k\<close>-th
  leaving the trace \<open>ts ! k\<close>, with a sleep of 60 after each of them;
  \<open>after_rounds tr ts\<close> is the trace after these rounds.
\<close>

fun none_rounds :: "Config \<Rightarrow> Provider \<Rightarrow> event list \<Rightarrow> event list list \<Rightarrow> bool" where
  "none_rounds cfg prov tr [] = True"
| "none_rounds cfg prov tr (t # ts) =
     (check_for_existing_instance cfg prov tr = Some (Inr None, t)
      \<and> none_rounds cfg prov (t @ [Sleep 60]) ts)"

fun after_rounds :: "event list \<Rightarrow> event list list \<Rightarrow> event list" where
  "after_rounds tr [] = tr"
| "after_rounds tr (t # ts) = after_rounds (t @ [Sleep 60]) ts"

text \<open>The trace of a launch in the second availability domain followed by \<open>k\<close> rounds
  that found nothing and one more query of the finder.\<close>

definition polled :: "nat \<Rightarrow> event list" where
  "polled k = LaunchInstance ''xyz:EU-1-AD-2''
     # concat (replicate k [CheckForExisting, ApiCall ListInstances, Sleep 60])
     @ [CheckForExisting, ApiCall ListInstances]"



text \<open>Configurations that differ from \<open>cfg_arm\<close> in the shape and in the request for a
  second micro instance, and three instances of each shape distribution.\<close>

definition cfg_arm_second :: Config where
  "cfg_arm_second = cfg_arm\<lparr>is_second_micro_instance := True\<rparr>"

definition cfg_micro_first :: Config where
  "cfg_micro_first = cfg_arm\<lparr>compute_shape := E2_MICRO_SHAPE\<rparr>"

definition cfg_micro_second :: Config where
  "cfg_micro_second = cfg_arm\<lparr>compute_shape := E2_MICRO_SHAPE, is_second_micro_instance := True\<rparr>"

definition arm_x :: Instance where
  "arm_x = \<lparr>inst_id = ''ocid1.instance.x'', display_name = ''x'', shape = ARM_SHAPE,
     lifecycle_state = ''RUNNING'', availability_domain = ''xyz:EU-1-AD-1''\<rparr>"

definition arm_y :: Instance where
  "arm_y = \<lparr>inst_id = ''ocid1.instance.y'', display_name = ''y'', shape = ARM_SHAPE,
     lifecycle_state = ''RUNNING'', availability_domain = ''xyz:EU-1-AD-2''\<rparr>"

definition micro_x :: Instance where
  "micro_x = arm_x\<lparr>shape := E2_MICRO_SHAPE\<rparr>"

definition micro_y :: Instance where
  "micro_y = arm_y\<lparr>shape := E2_MICRO_SHAPE\<rparr>"

definition micro_z :: Instance where
  "micro_z = \<lparr>inst_id = ''ocid1.instance.z'', display_name = ''z'', shape = E2_MICRO_SHAPE,
     lifecycle_state = ''RUNNING'', availability_domain = ''xyz:EU-1-AD-3''\<rparr>"

definition arm_z :: Instance where
  "arm_z = micro_z\<lparr>shape := ARM_SHAPE\<rparr>"

text \<open>A provider that always lists the given instances.\<close>

definition prov_lists :: "Instance list \<Rightarrow> Provider" where
  "prov_lists instances =
     \<lparr>list_availability_domains = (\<lambda>n. Inr three_ads),
      list_subnets = (\<lambda>n. Inr []),
      list_images = (\<lambda>n. Inr []),
      list_instances = (\<lambda>n. Inr instances),
      launch_instance = (\<lambda>n. None)\<rparr>"

text \<open>\<open>list_instances\<close> raises the error without a message.\<close>

definition prov_no_message_on_list :: Provider where
  "prov_no_message_on_list =
     \<lparr>list_availability_domains = (\<lambda>n. Inr three_ads),
      list_subnets = (\<lambda>n. Inr []),
      list_images = (\<lambda>n. Inr []),
      list_instances = (\<lambda>n. Inl err_no_message),
      launch_instance = (\<lambda>n. None)\<rparr>"



text \<open>
  A qualifying instance in the words of the specification: its shape is the configured
  one and its lifecycle state is one of RUNNING, PROVISIONING and STARTING.
\<close>

definition qualifies :: "Config \<Rightarrow> Instance \<Rightarrow> bool" where
  "qualifies cfg inst \<longleftrightarrow>
     shape inst = compute_shape cfg
     \<and> (lifecycle_state inst = ''RUNNING'' \<or> lifecycle_state inst = ''PROVISIONING''
        \<or> lifecycle_state inst = ''STARTING'')"

section \<open>Properties of the wrapper and the finder\<close>

lemma is_temporary_of_retryable:
  "classify_api_call e = Inr RETRYABLE \<longleftrightarrow> is_temporary e = Inr True"
  by (auto simp: classify_api_call_def split: sum.splits bool.splits if_splits)

lemma execute_api_call_result:
  assumes run: "execute_api_call cfg m resp tr = Some y"
  shows "(\<exists>evs. snd y = tr @ evs @ [ApiCall m]
            \<and> (\<forall>ev \<in> set evs. ev = ApiCall m \<or> ev = Sleep (wait_time_secs cfg)))
         \<and> (\<forall>e. fst y = Inl (ServiceErr e) \<longrightarrow> is_temporary e = Inr False)
         \<and> (\<forall>r. fst y \<noteq> Inl (RuntimeErr r))"
proof (rule execute_api_call.raw_induct
    [where P = "\<lambda>cfg m resp tr y. (\<exists>evs. snd y = tr @ evs @ [ApiCall m]
            \<and> (\<forall>ev \<in> set evs. ev = ApiCall m \<or> ev = Sleep (wait_time_secs cfg)))
         \<and> (\<forall>e. fst y = Inl (ServiceErr e) \<longrightarrow> is_temporary e = Inr False)
         \<and> (\<forall>r. fst y \<noteq> Inl (RuntimeErr r))", OF _ run], goal_cases)
  case (1 f cfg m resp tr y)
  show ?case
  proof (cases "resp (n_calls m tr)")
    case (Inr d)
    with 1(2) have "y = (Inr d, tr @ [ApiCall m])" by simp
    then show ?thesis by simp
  next
    case (Inl e)
    show ?thesis
    proof (cases "classify_api_call e")
      case (Inl x)
      with \<open>resp (n_calls m tr) = Inl e\<close> 1(2) have y: "y = (Inl x, tr @ [ApiCall m])" by simp
      from Inl have "x = TypeError"
        by (auto simp: classify_api_call_def is_temporary_def split: sum.splits bool.splits if_splits option.splits)
      with y show ?thesis by simp
    next
      case (Inr c)
      show ?thesis
      proof (cases c)
        case RETRYABLE
        show ?thesis
        proof (cases "wait_time_secs cfg < 0")
          case True
          with RETRYABLE Inr \<open>resp (n_calls m tr) = Inl e\<close> 1(2)
          have "y = (Inl ValueError, tr @ [ApiCall m])" by (simp add: sleep_def)
          then show ?thesis by simp
        next
          case False
          with RETRYABLE Inr \<open>resp (n_calls m tr) = Inl e\<close> 1(2)
          have "f cfg m resp (tr @ [ApiCall m, Sleep (wait_time_secs cfg)]) = Some y"
            by (simp add: sleep_def)
          from 1(1)[OF this] obtain evs where
            evs: "snd y = (tr @ [ApiCall m, Sleep (wait_time_secs cfg)]) @ evs @ [ApiCall m]"
                 "\<forall>ev \<in> set evs. ev = ApiCall m \<or> ev = Sleep (wait_time_secs cfg)"
            and rest: "\<forall>e. fst y = Inl (ServiceErr e) \<longrightarrow> is_temporary e = Inr False"
                      "\<forall>r. fst y \<noteq> Inl (RuntimeErr r)"
            by blast
          from evs(1) have "snd y = tr @ ([ApiCall m, Sleep (wait_time_secs cfg)] @ evs) @ [ApiCall m]"
            by simp
          moreover from evs(2) have
            "\<forall>ev \<in> set ([ApiCall m, Sleep (wait_time_secs cfg)] @ evs).
               ev = ApiCall m \<or> ev = Sleep (wait_time_secs cfg)"
            by simp
          ultimately show ?thesis using rest by blast
        qed
      next
        case QUOTA_EXCEEDED
        with Inr \<open>resp (n_calls m tr) = Inl e\<close> 1(2) have y: "y = (Inl (ServiceErr e), tr @ [ApiCall m])" by simp
        from Inr QUOTA_EXCEEDED have "is_temporary e = Inr False"
          by (auto simp: classify_api_call_def split: sum.splits bool.splits if_splits)
        with y show ?thesis by simp
      next
        case FATAL
        with Inr \<open>resp (n_calls m tr) = Inl e\<close> 1(2) have y: "y = (Inl (ServiceErr e), tr @ [ApiCall m])" by simp
        from Inr FATAL have "is_temporary e = Inr False"
          by (auto simp: classify_api_call_def split: sum.splits bool.splits if_splits)
        with y show ?thesis by simp
      qed
    qed
  qed
qed


lemma execute_api_call_returns:
  "resp (n_calls m tr) = Inr d \<Longrightarrow>
     execute_api_call cfg m resp tr = Some (Inr d, tr @ [ApiCall m])"
  by (subst execute_api_call.simps) simp

lemma execute_api_call_retries:
  "resp (n_calls m tr) = Inl e \<Longrightarrow> classify_api_call e = Inr RETRYABLE \<Longrightarrow>
   0 \<le> wait_time_secs cfg \<Longrightarrow>
     execute_api_call cfg m resp tr =
     execute_api_call cfg m resp (tr @ [ApiCall m, Sleep (wait_time_secs cfg)])"
  by (subst execute_api_call.simps) (simp add: sleep_def)

lemma execute_api_call_raises:
  "resp (n_calls m tr) = Inl e \<Longrightarrow> classify_api_call e = Inr c \<Longrightarrow> c \<noteq> RETRYABLE \<Longrightarrow>
     execute_api_call cfg m resp tr = Some (Inl (ServiceErr e), tr @ [ApiCall m])"
  by (subst execute_api_call.simps) (simp split: classification.splits)

lemma n_calls_append [simp]: "n_calls m (tr @ evs) = n_calls m tr + n_calls m evs"
  by (simp add: n_calls_def)

lemma n_launches_append [simp]: "n_launches (tr @ evs) = n_launches tr + n_launches evs"
  by (simp add: n_launches_def)

lemma n_checks_append [simp]: "n_checks (tr @ evs) = n_checks tr + n_checks evs"
  by (simp add: n_checks_def)

lemma quiet_events:
  assumes "\<forall>ev \<in> set evs. ev = ApiCall m \<or> ev = Sleep w"
  shows "n_launches evs = 0" and "n_checks evs = 0"
  using assms by (induction evs) (auto simp: n_launches_def n_checks_def)

lemma select_existing_qualifies:
  assumes "select_existing cfg instances = Some inst"
  shows "inst \<in> set instances \<and> shape inst = compute_shape cfg
         \<and> lifecycle_state inst \<in> {''RUNNING'', ''PROVISIONING'', ''STARTING''}"
proof -
  let ?t = "target_instances cfg instances"
  from assms have ne: "?t \<noteq> []" and pick: "inst = hd ?t \<or> inst = last ?t"
    by (auto simp: select_existing_def Let_def split: if_splits)
  from ne pick have "inst \<in> set ?t" by auto
  then show ?thesis by (auto simp: target_instances_def)
qed

lemma check_for_existing_instance_result:
  assumes "check_for_existing_instance cfg prov tr = Some (r, tr')"
  shows "(\<exists>evs. tr' = tr @ CheckForExisting # evs
            \<and> (\<forall>ev \<in> set evs. ev = ApiCall ListInstances \<or> ev = Sleep (wait_time_secs cfg)))
         \<and> (\<forall>inst. r = Inr (Some inst) \<longrightarrow> shape inst = compute_shape cfg
                \<and> lifecycle_state inst \<in> {''RUNNING'', ''PROVISIONING'', ''STARTING''})
         \<and> (\<forall>e. r = Inl (ServiceErr e) \<longrightarrow> is_temporary e = Inr False)
         \<and> (\<forall>x. r \<noteq> Inl (RuntimeErr x))"
proof -
  from assms obtain y where
    run: "execute_api_call cfg ListInstances (list_instances prov) (tr @ [CheckForExisting]) = Some y"
    and tr': "snd y = tr'"
    and r: "r = (case fst y of Inl x \<Rightarrow> Inl x | Inr instances \<Rightarrow> Inr (select_existing cfg instances))"
    by (auto simp: check_for_existing_instance_def split: option.splits sum.splits prod.splits)
  from execute_api_call_result[OF run] tr' obtain evs where
    evs: "tr' = (tr @ [CheckForExisting]) @ evs @ [ApiCall ListInstances]"
         "\<forall>ev \<in> set evs. ev = ApiCall ListInstances \<or> ev = Sleep (wait_time_secs cfg)"
    and err: "\<forall>e. fst y = Inl (ServiceErr e) \<longrightarrow> is_temporary e = Inr False"
             "\<forall>x. fst y \<noteq> Inl (RuntimeErr x)"
    by blast
  from evs have "tr' = tr @ CheckForExisting # (evs @ [ApiCall ListInstances])
      \<and> (\<forall>ev \<in> set (evs @ [ApiCall ListInstances]). ev = ApiCall ListInstances \<or> ev = Sleep (wait_time_secs cfg))"
    by simp
  then have 1: "\<exists>evs. tr' = tr @ CheckForExisting # evs
            \<and> (\<forall>ev \<in> set evs. ev = ApiCall ListInstances \<or> ev = Sleep (wait_time_secs cfg))"
    by blast
  have 2: "\<forall>inst. r = Inr (Some inst) \<longrightarrow> shape inst = compute_shape cfg
                \<and> lifecycle_state inst \<in> {''RUNNING'', ''PROVISIONING'', ''STARTING''}"
    using r select_existing_qualifies by (auto split: sum.splits)
  have 3: "\<forall>e. r = Inl (ServiceErr e) \<longrightarrow> is_temporary e = Inr False"
    using r err(1) by (auto split: sum.splits)
  have 4: "\<forall>x. r \<noteq> Inl (RuntimeErr x)"
    using r err(2) by (auto split: sum.splits)
  from 1 2 3 4 show ?thesis by blast
qed

lemma check_for_existing_instance_counts:
  assumes "check_for_existing_instance cfg prov tr = Some (r, tr')"
  shows "n_launches tr' = n_launches tr" and "n_checks tr' = Suc (n_checks tr)"
proof -
  from check_for_existing_instance_result[OF assms] obtain evs where
    evs: "tr' = tr @ CheckForExisting # evs"
         "\<forall>ev \<in> set evs. ev = ApiCall ListInstances \<or> ev = Sleep (wait_time_secs cfg)"
    by blast
  from quiet_events[OF evs(2)] evs(1)
  show "n_launches tr' = n_launches tr" and "n_checks tr' = Suc (n_checks tr)"
    by (simp_all add: n_launches_def n_checks_def)
qed


lemma not_temporary_not_retryable:
  "is_temporary e = Inr False \<Longrightarrow> classify_launch e \<noteq> Inr RETRYABLE"
  by (simp add: classify_launch_def)

lemma confirm_result:
  "confirm cfg prov n tr = Some (r, tr') \<Longrightarrow>
     (\<forall>inst. r = Inr inst \<longrightarrow> shape inst = compute_shape cfg
         \<and> lifecycle_state inst \<in> {''RUNNING'', ''PROVISIONING'', ''STARTING''})
     \<and> (\<forall>e. r = Inl (ServiceErr e) \<longrightarrow> is_temporary e = Inr False)"
proof (induction n arbitrary: tr)
  case 0
  then show ?case by auto
next
  case (Suc n)
  from Suc.prems obtain q t where
    chk: "check_for_existing_instance cfg prov tr = Some (q, t)"
    by (auto split: option.splits)
  note post = check_for_existing_instance_result[OF chk]
  show ?case
  proof (cases q)
    case (Inl x)
    with chk Suc.prems have "r = Inl x" by simp
    with post Inl show ?thesis by auto
  next
    case (Inr found)
    show ?thesis
    proof (cases found)
      case None
      with Inr chk Suc.prems have "confirm cfg prov n (t @ [Sleep 60]) = Some (r, tr')" by simp
      then show ?thesis by (rule Suc.IH)
    next
      case (Some inst)
      with Inr chk Suc.prems have "r = Inr inst" by simp
      with post Inr Some show ?thesis by auto
    qed
  qed
qed

lemma attempt_rejected:
  "launch_instance prov (n_launches tr) = Some e \<Longrightarrow>
     attempt cfg prov ad tr = Some (Inl (ServiceErr e), tr @ [LaunchInstance ad])"
  by (simp add: attempt_def)

lemma attempt_accepted:
  "launch_instance prov (n_launches tr) = None \<Longrightarrow>
     attempt cfg prov ad tr = confirm cfg prov 5 (tr @ [LaunchInstance ad])"
  by (simp add: attempt_def)

lemma attempt_result:
  assumes "attempt cfg prov ad tr = Some (r, tr')"
  shows "(\<forall>inst. r = Inr inst \<longrightarrow> shape inst = compute_shape cfg
             \<and> lifecycle_state inst \<in> {''RUNNING'', ''PROVISIONING'', ''STARTING''})
         \<and> (\<forall>e. r = Inl (ServiceErr e) \<longrightarrow>
               launch_instance prov (n_launches tr) = Some e \<or> is_temporary e = Inr False)"
proof (cases "launch_instance prov (n_launches tr)")
  case None
  with assms have "confirm cfg prov 5 (tr @ [LaunchInstance ad]) = Some (r, tr')"
    by (simp add: attempt_def)
  from confirm_result[OF this] show ?thesis by blast
next
  case (Some e)
  with assms have "r = Inl (ServiceErr e)" by (simp add: attempt_def)
  with Some show ?thesis by simp
qed

lemma launch_loop_success:
  "attempt cfg prov (fst (cycle_next ads pos)) tr = Some (Inr inst, tr') \<Longrightarrow>
     launch_loop cfg prov ads pos tr = Some (Inr inst, tr')"
  by (subst launch_loop.simps) simp

lemma launch_loop_runtime_error:
  "attempt cfg prov (fst (cycle_next ads pos)) tr = Some (Inl (RuntimeErr x), tr') \<Longrightarrow>
     launch_loop cfg prov ads pos tr = Some (Inl (RuntimeErr x), tr')"
  by (subst launch_loop.simps) simp


lemma launch_loop_cannot_sleep:
  "attempt cfg prov (fst (cycle_next ads pos)) tr = Some (Inl (ServiceErr e), tr') \<Longrightarrow>
   classify_launch e = Inr RETRYABLE \<Longrightarrow> wait_time_secs cfg < 0 \<Longrightarrow>
     launch_loop cfg prov ads pos tr = Some (Inl ValueError, tr')"
  by (subst launch_loop.simps) (simp add: sleep_def)

lemma launch_loop_quota:
  "attempt cfg prov (fst (cycle_next ads pos)) tr = Some (Inl (ServiceErr e), tr') \<Longrightarrow>
   classify_launch e = Inr QUOTA_EXCEEDED \<Longrightarrow>
   check_for_existing_instance cfg prov tr' = Some (Inr found, tr'') \<Longrightarrow>
     launch_loop cfg prov ads pos tr =
     Some ((case found of Some inst \<Rightarrow> Inr inst
                        | None \<Rightarrow> Inl (RuntimeErr QUOTA_EXCEEDED_OTHER_RESOURCE)), tr'')"
  by (subst launch_loop.simps) (simp split: option.splits)

lemma launch_loop_fatal:
  "attempt cfg prov (fst (cycle_next ads pos)) tr = Some (Inl (ServiceErr e), tr') \<Longrightarrow>
   classify_launch e = Inr FATAL \<Longrightarrow>
     launch_loop cfg prov ads pos tr = Some (Inl (ServiceErr e), tr')"
  by (subst launch_loop.simps) simp

lemma launch_loop_type_error:
  "attempt cfg prov (fst (cycle_next ads pos)) tr = Some (Inl (ServiceErr e), tr') \<Longrightarrow>
   classify_launch e = Inl x \<Longrightarrow>
     launch_loop cfg prov ads pos tr = Some (Inl x, tr')"
  by (subst launch_loop.simps) simp


lemma classify_launch_raises:
  "classify_launch e = Inl x \<Longrightarrow> x = TypeError"
  by (auto simp: classify_launch_def is_temporary_def
           split: if_splits sum.splits bool.splits option.splits)

lemma launch_loop_result:
  assumes run: "launch_loop cfg prov ads pos tr = Some y"
  shows "(\<forall>inst. fst y = Inr inst \<longrightarrow> shape inst = compute_shape cfg
             \<and> lifecycle_state inst \<in> {''RUNNING'', ''PROVISIONING'', ''STARTING''})
         \<and> (\<forall>e. fst y = Inl (ServiceErr e) \<longrightarrow> classify_launch e \<noteq> Inr RETRYABLE)"
proof (rule launch_loop.raw_induct
    [where P = "\<lambda>cfg prov ads pos tr y.
         (\<forall>inst. fst y = Inr inst \<longrightarrow> shape inst = compute_shape cfg
             \<and> lifecycle_state inst \<in> {''RUNNING'', ''PROVISIONING'', ''STARTING''})
         \<and> (\<forall>e. fst y = Inl (ServiceErr e) \<longrightarrow> classify_launch e \<noteq> Inr RETRYABLE)", OF _ run],
    goal_cases)
  case (1 f cfg prov ads pos tr y)
  from 1(2) obtain r t where
    att: "attempt cfg prov (fst (cycle_next ads pos)) tr = Some (r, t)"
    by (auto split: option.splits)
  note post = attempt_result[OF att]
  show ?case
  proof (cases r)
    case (Inr inst)
    with att 1(2) have "y = (Inr inst, t)" by simp
    with post Inr show ?thesis by simp
  next
    case (Inl x)
    show ?thesis
    proof (cases x)
      case (RuntimeErr q)
      with Inl att 1(2) have "y = (Inl (RuntimeErr q), t)" by simp
      then show ?thesis by simp
    next
      case TypeError
      with Inl att 1(2) have "y = (Inl TypeError, t)" by simp
      then show ?thesis by simp
    next
      case ValueError
      with Inl att 1(2) have "y = (Inl ValueError, t)" by simp
      then show ?thesis by simp
    next
      case (ServiceErr e)
      note e = Inl ServiceErr
      show ?thesis
      proof (cases "classify_launch e")
        case (Inl x')
        with e att 1(2) have "y = (Inl x', t)" by simp
        with classify_launch_raises[OF Inl] show ?thesis by simp
      next
        case (Inr c)
        show ?thesis
        proof (cases c)
          case RETRYABLE
          show ?thesis
          proof (cases "wait_time_secs cfg < 0")
            case True
            with RETRYABLE Inr e att 1(2) have "y = (Inl ValueError, t)" by (simp add: sleep_def)
            then show ?thesis by simp
          next
            case False
            with RETRYABLE Inr e att 1(2)
            have "f cfg prov ads (snd (cycle_next ads pos)) (t @ [Sleep (wait_time_secs cfg)]) = Some y"
              by (simp add: sleep_def)
            then show ?thesis by (rule 1(1))
          qed
        next
          case FATAL
          with Inr e att 1(2) have "y = (Inl (ServiceErr e), t)" by simp
          with Inr FATAL show ?thesis by simp
        next
          case QUOTA_EXCEEDED
          with Inr e att 1(2) obtain q t' where
            chk: "check_for_existing_instance cfg prov t = Some (q, t')"
            by (auto split: option.splits)
          note cpost = check_for_existing_instance_result[OF chk]
          show ?thesis
          proof (cases q)
            case (Inl z)
            with chk QUOTA_EXCEEDED Inr e att 1(2) have "y = (Inl z, t')" by simp
            with cpost Inl not_temporary_not_retryable show ?thesis by auto
          next
            case (Inr found)
            show ?thesis
            proof (cases found)
              case None
              with Inr chk QUOTA_EXCEEDED \<open>classify_launch e = Inr c\<close> e att 1(2)
              have "y = (Inl (RuntimeErr QUOTA_EXCEEDED_OTHER_RESOURCE), t')" by simp
              then show ?thesis by simp
            next
              case (Some inst)
              with Inr chk QUOTA_EXCEEDED \<open>classify_launch e = Inr c\<close> e att 1(2)
              have "y = (Inr inst, t')" by simp
              with cpost Inr Some show ?thesis by simp
            qed
          qed
        qed
      qed
    qed
  qed
qed

lemma lookup_error_not_retryable:
  assumes "execute_api_call cfg m resp tr = Some (Inl (ServiceErr e), tr')"
  shows "classify_launch e \<noteq> Inr RETRYABLE"
  using execute_api_call_result[OF assms] not_temporary_not_retryable by simp

lemma launch_new_instance_result:
  assumes run: "launch_new_instance cfg prov tr = Some (r, tr')"
  shows "(\<forall>inst. r = Inr inst \<longrightarrow> shape inst = compute_shape cfg
             \<and> lifecycle_state inst \<in> {''RUNNING'', ''PROVISIONING'', ''STARTING''})
         \<and> (\<forall>e. r = Inl (ServiceErr e) \<longrightarrow> classify_launch e \<noteq> Inr RETRYABLE)"
proof -
  from run obtain r1 t1 where
    l1: "execute_api_call cfg ListAvailabilityDomains (list_availability_domains prov) tr = Some (r1, t1)"
    by (auto simp: launch_new_instance_def find_availability_domains_def split: option.splits)
  show ?thesis
  proof (cases r1)
    case (Inl x)
    with l1 run have "r = Inl x"
      by (simp add: launch_new_instance_def find_availability_domains_def)
    with l1 Inl show ?thesis by (auto dest: lookup_error_not_retryable)
  next
    case (Inr all_ads)
    let ?ads = "matching_ads cfg all_ads"
    from Inr l1 have fad: "find_availability_domains cfg prov tr = Some (Inr ?ads, t1)"
      by (simp add: find_availability_domains_def)
    show ?thesis
    proof (cases "?ads = []")
      case True
      with fad run have "r = Inl (RuntimeErr NO_ZONES_AVAILABLE)"
        by (simp add: launch_new_instance_def)
      then show ?thesis by simp
    next
      case False
      from run fad False obtain r2 t2 where l2: "find_subnet_id cfg prov t1 = Some (r2, t2)"
        by (auto simp: launch_new_instance_def split: option.splits)
      show ?thesis
      proof (cases r2)
        case (Inl x)
        with l2 fad False run have rx: "r = Inl x" by (simp add: launch_new_instance_def)
        from l2 Inl have "\<forall>e. x = ServiceErr e \<longrightarrow> classify_launch e \<noteq> Inr RETRYABLE"
          by (auto simp: find_subnet_id_def dest: lookup_error_not_retryable
                   split: if_splits option.splits sum.splits list.splits)
        with rx show ?thesis by simp
      next
        case (Inr subnet)
        from run fad False l2 Inr obtain r3 t3 where l3: "find_image_id cfg prov t2 = Some (r3, t3)"
          by (auto simp: launch_new_instance_def split: option.splits)
        show ?thesis
        proof (cases r3)
          case (Inl x)
          with l3 l2 \<open>r2 = Inr subnet\<close> fad False run have rx: "r = Inl x"
            by (simp add: launch_new_instance_def)
          from l3 Inl have "\<forall>e. x = ServiceErr e \<longrightarrow> classify_launch e \<noteq> Inr RETRYABLE"
            by (auto simp: find_image_id_def dest: lookup_error_not_retryable
                     split: if_splits option.splits sum.splits list.splits)
          with rx show ?thesis by simp
        next
          case (Inr img)
          with l3 l2 \<open>r2 = Inr subnet\<close> fad False run
          have "launch_loop cfg prov ?ads (snd (cycle_next ?ads 0)) t3 = Some (r, tr')"
            by (simp add: launch_new_instance_def)
          from launch_loop_result[OF this] show ?thesis by simp
        qed
      qed
    qed
  qed
qed

text \<open>\<open>str_in\<close> is the substring test.\<close>

lemma str_in_iff: "str_in needle hay \<longleftrightarrow> (\<exists>before after. hay = before @ needle @ after)"
proof (induction hay)
  case Nil
  then show ?case by auto
next
  case (Cons c cs)
  show ?case
  proof
    assume "str_in needle (c # cs)"
    then consider "take (length needle) (c # cs) = needle" | "str_in needle cs" by auto
    then show "\<exists>before after. c # cs = before @ needle @ after"
    proof cases
      case 1
      then have "c # cs = [] @ needle @ drop (length needle) (c # cs)"
        by (metis append_Nil append_take_drop_id)
      then show ?thesis by blast
    next
      case 2
      with Cons obtain p s where "cs = p @ needle @ s" by blast
      then have "c # cs = (c # p) @ needle @ s" by simp
      then show ?thesis by blast
    qed
  next
    assume "\<exists>before after. c # cs = before @ needle @ after"
    then obtain p s where ps: "c # cs = p @ needle @ s" by blast
    show "str_in needle (c # cs)"
    proof (cases p)
      case Nil
      with ps have "take (length needle) (c # cs) = needle" by simp
      then show ?thesis by simp
    next
      case (Cons a p')
      with ps have "cs = p' @ needle @ s" by simp
      with Cons.IH have "str_in needle cs" by blast
      then show ?thesis by simp
    qed
  qed
qed

lemma classify_launch_quota:
  "code e = Some ''LimitExceeded'' \<Longrightarrow> classify_launch e = Inr QUOTA_EXCEEDED"
  by (simp add: classify_launch_def)

lemma temporary_cases:
  "status e \<in> {429, 500, 502, 503, 504} \<or> code e = Some ''TooManyRequests''
     \<or> (\<exists>msg. message e = Some msg \<and> str_in ''Out of host capacity'' msg)
   \<Longrightarrow> is_temporary e = Inr True"
  by (auto simp: is_temporary_def)

lemma not_temporary_cases:
  "status e \<notin> {429, 500, 502, 503, 504} \<Longrightarrow> code e \<noteq> Some ''TooManyRequests'' \<Longrightarrow>
   message e = Some msg \<Longrightarrow> \<not> str_in ''Out of host capacity'' msg
   \<Longrightarrow> is_temporary e = Inr False"
  by (simp add: is_temporary_def)

lemma quiet_calls:
  assumes "\<forall>ev \<in> set evs. ev = ApiCall m \<or> ev = Sleep w" and "m' \<noteq> m"
  shows "n_calls m' evs = 0"
  using assms by (induction evs) (auto simp: n_calls_def)

lemma confirm_none_rounds:
  "none_rounds cfg prov tr ts \<Longrightarrow>
     confirm cfg prov (length ts + n) tr = confirm cfg prov n (after_rounds tr ts)"
  by (induction ts arbitrary: tr) simp_all

lemma after_rounds_last:
  "ts \<noteq> [] \<Longrightarrow> after_rounds tr ts = last ts @ [Sleep 60]"
  by (induction ts arbitrary: tr) auto

lemma none_rounds_counts:
  "none_rounds cfg prov tr ts \<Longrightarrow>
     n_checks (after_rounds tr ts) = n_checks tr + length ts
     \<and> n_launches (after_rounds tr ts) = n_launches tr"
proof (induction ts arbitrary: tr)
  case Nil
  then show ?case by simp
next
  case (Cons t ts)
  then have chk: "check_for_existing_instance cfg prov tr = Some (Inr None, t)"
    and rest: "none_rounds cfg prov (t @ [Sleep 60]) ts"
    by simp_all
  from check_for_existing_instance_counts[OF chk]
  have "n_checks (t @ [Sleep 60]) = Suc (n_checks tr)" and "n_launches (t @ [Sleep 60]) = n_launches tr"
    by (simp_all add: n_checks_def n_launches_def)
  with Cons.IH[OF rest] show ?case by simp
qed








lemma shapes_differ: "ARM_SHAPE \<noteq> E2_MICRO_SHAPE"
  by (simp add: ARM_SHAPE_def E2_MICRO_SHAPE_def)

lemma check_for_existing_instance_listed:
  "list_instances prov (n_calls ListInstances tr) = Inr instances \<Longrightarrow>
     check_for_existing_instance cfg prov tr =
       Some (Inr (select_existing cfg instances), tr @ [CheckForExisting, ApiCall ListInstances])"
  by (simp add: check_for_existing_instance_def execute_api_call_returns n_calls_def)

text \<open>With a message that is a string, both handlers follow the retry rule, and an error
  that meets none of its conditions is re-raised as it is.\<close>

lemma classify_with_message:
  assumes other: "code e \<noteq> Some ''LimitExceeded''"
  shows "(status e \<in> {429, 500, 502, 503, 504} \<or> code e = Some ''TooManyRequests''
            \<or> (\<exists>msg. message e = Some msg \<and> str_in ''Out of host capacity'' msg)
          \<longrightarrow> classify_launch e = Inr RETRYABLE \<and> classify_api_call e = Inr RETRYABLE)
       \<and> (status e \<notin> {429, 500, 502, 503, 504} \<and> code e \<noteq> Some ''TooManyRequests''
            \<and> (\<exists>msg. message e = Some msg \<and> \<not> str_in ''Out of host capacity'' msg)
          \<longrightarrow> classify_launch e = Inr FATAL \<and> classify_api_call e = Inr FATAL
            \<and> (launch_instance prov (n_launches tr) = Some e \<longrightarrow>
                 launch_loop cfg prov ads pos tr =
                 Some (Inl (ServiceErr e), tr @ [LaunchInstance (fst (cycle_next ads pos))]))
            \<and> (resp (n_calls m tr) = Inl e \<longrightarrow>
                 execute_api_call cfg m resp tr = Some (Inl (ServiceErr e), tr @ [ApiCall m])))"
proof (intro conjI impI)
  assume t: "status e \<in> {429, 500, 502, 503, 504} \<or> code e = Some ''TooManyRequests''
            \<or> (\<exists>msg. message e = Some msg \<and> str_in ''Out of host capacity'' msg)"
  from temporary_cases[OF t] other show "classify_launch e = Inr RETRYABLE"
    by (simp add: classify_launch_def)
  from temporary_cases[OF t] show "classify_api_call e = Inr RETRYABLE"
    by (simp add: classify_api_call_def)
next
  assume f: "status e \<notin> {429, 500, 502, 503, 504} \<and> code e \<noteq> Some ''TooManyRequests''
            \<and> (\<exists>msg. message e = Some msg \<and> \<not> str_in ''Out of host capacity'' msg)"
  then have nt: "is_temporary e = Inr False" using not_temporary_cases by blast
  from nt other show cl: "classify_launch e = Inr FATAL" by (simp add: classify_launch_def)
  from nt other show ca: "classify_api_call e = Inr FATAL" by (simp add: classify_api_call_def)
  {
    assume "launch_instance prov (n_launches tr) = Some e"
    then have "attempt cfg prov (fst (cycle_next ads pos)) tr =
        Some (Inl (ServiceErr e), tr @ [LaunchInstance (fst (cycle_next ads pos))])"
      by (rule attempt_rejected)
    then show "launch_loop cfg prov ads pos tr =
        Some (Inl (ServiceErr e), tr @ [LaunchInstance (fst (cycle_next ads pos))])"
      using cl by (rule launch_loop_fatal)
  }
  {
    assume "resp (n_calls m tr) = Inl e"
    then show "execute_api_call cfg m resp tr = Some (Inl (ServiceErr e), tr @ [ApiCall m])"
      using ca by (rule execute_api_call_raises) simp
  }
qed

lemma target_instances_qualifies:
  "target_instances cfg instances = filter (qualifies cfg) instances"
  unfolding target_instances_def by (rule filter_cong) (auto simp: qualifies_def)

lemma first_of_filter:
  assumes "filter P xs \<noteq> []"
  shows "\<exists>pre post. xs = pre @ hd (filter P xs) # post \<and> P (hd (filter P xs))
           \<and> (\<forall>x \<in> set pre. \<not> P x)"
proof -
  from assms have "\<exists>x \<in> set xs. P x" by (auto simp: filter_empty_conv)
  from split_list_first_prop[OF this]
  obtain pre x post where s: "xs = pre @ x # post" "P x" "\<forall>y \<in> set pre. \<not> P y"
    by blast
  then have "filter P xs = x # filter P post" by simp
  with s show ?thesis by auto
qed

lemma last_of_filter:
  assumes "filter P xs \<noteq> []"
  shows "\<exists>pre post. xs = pre @ last (filter P xs) # post \<and> P (last (filter P xs))
           \<and> (\<forall>x \<in> set post. \<not> P x)"
proof -
  from assms have "\<exists>x \<in> set xs. P x" by (auto simp: filter_empty_conv)
  from split_list_last_prop[OF this]
  obtain pre x post where s: "xs = pre @ x # post" "P x" "\<forall>y \<in> set post. \<not> P y"
    by blast
  then have "filter P xs = filter P pre @ [x]" by simp
  with s show ?thesis by auto
qed

text \<open>An error that only its message makes temporary.\<close>

lemma capacity_message_alone_is_retryable:
  "classify_launch \<lparr>status = 400, code = Some ''InvalidParameter'',
      message = Some ''Error: Out of host capacity in this domain.''\<rparr> = Inr RETRYABLE
   \<and> classify_api_call \<lparr>status = 400, code = Some ''InvalidParameter'',
      message = Some ''Error: Out of host capacity in this domain.''\<rparr> = Inr RETRYABLE
   \<and> classify_launch \<lparr>status = 400, code = Some ''InvalidParameter'',
      message = Some ''Out of host capacit''\<rparr> = Inr FATAL"
  by code_simp

section \<open>Only qualifying instances are found\<close>

text \<open>
  C10. Whatever the provider lists, an instance returned by the finder has exactly the
  configured shape and a lifecycle state among RUNNING, PROVISIONING and STARTING; the
  list of acceptable states is a literal of \<open>check_for_existing_instance\<close>, not a
  setting. Hence an instance that is STOPPED, STOPPING, TERMINATING or TERMINATED is
  never returned. This holds for a direct call of the finder (the check before the run),
  for the confirmation poll, and for a whole run of \<open>launch_new_instance\<close>, which
  includes the query after a quota error.
\<close>

theorem found_instance_qualifies:
  "(check_for_existing_instance cfg prov tr = Some (Inr (Some inst), tr')
      \<or> confirm cfg prov n tr = Some (Inr inst, tr')
      \<or> launch_new_instance cfg prov tr = Some (Inr inst, tr'))
   \<longrightarrow> shape inst = compute_shape cfg
       \<and> lifecycle_state inst \<in> {''RUNNING'', ''PROVISIONING'', ''STARTING''}
       \<and> lifecycle_state inst \<notin> {''STOPPED'', ''STOPPING'', ''TERMINATING'', ''TERMINATED''}"
proof
  assume "check_for_existing_instance cfg prov tr = Some (Inr (Some inst), tr')
      \<or> confirm cfg prov n tr = Some (Inr inst, tr')
      \<or> launch_new_instance cfg prov tr = Some (Inr inst, tr')"
  then have "shape inst = compute_shape cfg
       \<and> lifecycle_state inst \<in> {''RUNNING'', ''PROVISIONING'', ''STARTING''}"
    using check_for_existing_instance_result confirm_result launch_new_instance_result
    by blast
  then show "shape inst = compute_shape cfg
       \<and> lifecycle_state inst \<in> {''RUNNING'', ''PROVISIONING'', ''STARTING''}
       \<and> lifecycle_state inst \<notin> {''STOPPED'', ''STOPPING'', ''TERMINATING'', ''TERMINATED''}"
    by auto
qed

theorem found_instance_qualifies_witness:
  "launch_new_instance cfg_arm prov_third_accepted [] =
     Some (Inr arm_instance,
       [ApiCall ListAvailabilityDomains,
        LaunchInstance ''xyz:EU-1-AD-2'', Sleep 30,
        LaunchInstance ''xyz:EU-1-AD-3'', Sleep 30,
        LaunchInstance ''xyz:EU-1-AD-1'', CheckForExisting, ApiCall ListInstances])
   \<and> shape arm_instance = compute_shape cfg_arm
   \<and> lifecycle_state arm_instance \<in> {''RUNNING'', ''PROVISIONING'', ''STARTING''}
   \<and> lifecycle_state arm_instance \<notin> {''STOPPED'', ''STOPPING'', ''TERMINATING'', ''TERMINATED''}"
proof -
  have run: "launch_new_instance cfg_arm prov_third_accepted [] =
     Some (Inr arm_instance,
       [ApiCall ListAvailabilityDomains,
        LaunchInstance ''xyz:EU-1-AD-2'', Sleep 30,
        LaunchInstance ''xyz:EU-1-AD-3'', Sleep 30,
        LaunchInstance ''xyz:EU-1-AD-1'', CheckForExisting, ApiCall ListInstances])"
    by code_simp
  from found_instance_qualifies[of cfg_arm prov_third_accepted "[]" arm_instance _ 0] run
  show ?thesis by blast
qed

section \<open>An error without a message\<close>

text \<open>
  C9. The classification is not total. For the error with status 400, code
  "InvalidParameter" and no message, the test \<open>"Out of host capacity" in e.message\<close> is
  reached with \<open>None\<close> and raises \<open>TypeError\<close>, in both handlers; a run whose launch
  call fails with this error ends with the \<open>TypeError\<close>, not with the provider's error.
\<close>

theorem missing_message_raises_type_error:
  "classify_launch err_no_message = Inl TypeError
   \<and> classify_api_call err_no_message = Inl TypeError
   \<and> launch_new_instance cfg_arm prov_no_message [] =
       Some (Inl TypeError, [ApiCall ListAvailabilityDomains, LaunchInstance ''xyz:EU-1-AD-2''])"
  by code_simp

section \<open>The quota code in the wrapper\<close>

text \<open>
  C1. The handler of \<open>launch_new_instance\<close> tests the quota code first
  (\<open>classify_launch_quota\<close>), the handler of \<open>_execute_api_call\<close> tests it second. For
  the error with code "LimitExceeded" and status 429 the first answers QUOTA_EXCEEDED and
  the second RETRYABLE: when \<open>list_instances\<close> raises it, the wrapper sleeps and calls
  again instead of re-raising.
\<close>

theorem wrapper_retries_quota_error:
  "code err_quota_429 = Some ''LimitExceeded''
   \<and> classify_launch err_quota_429 = Inr QUOTA_EXCEEDED
   \<and> classify_api_call err_quota_429 = Inr RETRYABLE
   \<and> check_for_existing_instance cfg_arm prov_quota_429_on_list [] =
       Some (Inr None, [CheckForExisting, ApiCall ListInstances, Sleep 30, ApiCall ListInstances])"
  by code_simp

section \<open>No availability domain matches\<close>

text \<open>
  C7 as stated fails: the candidates are computed from the provider's answer to
  \<open>list_availability_domains\<close>, so a run with no candidate has made one provider call.
\<close>

theorem no_zones_makes_a_provider_call:
  "find_availability_domains cfg_no_zone prov_third_accepted [] =
     Some (Inr [], [ApiCall ListAvailabilityDomains])
   \<and> launch_new_instance cfg_no_zone prov_third_accepted [] =
     Some (Inl (RuntimeErr NO_ZONES_AVAILABLE), [ApiCall ListAvailabilityDomains])
   \<and> n_provider_calls [ApiCall ListAvailabilityDomains] = 1"
  by code_simp

text \<open>
  C7, amended. If the lookup of the availability domains yields no candidate, the run
  ends with NO_ZONES_AVAILABLE; the only provider calls it has made are calls of
  \<open>list_availability_domains\<close> (at least one, with a sleep after each that failed
  temporarily): no launch call, no subnet lookup, no image lookup, no listing of
  instances.
\<close>

theorem no_zones_stops_after_listing:
  assumes empty: "find_availability_domains cfg prov tr = Some (Inr [], tr1)"
  shows "launch_new_instance cfg prov tr = Some (Inl (RuntimeErr NO_ZONES_AVAILABLE), tr1)
       \<and> (\<exists>evs. tr1 = tr @ evs @ [ApiCall ListAvailabilityDomains]
              \<and> (\<forall>ev \<in> set evs. ev = ApiCall ListAvailabilityDomains
                                  \<or> ev = Sleep (wait_time_secs cfg)))
       \<and> n_launches tr1 = n_launches tr
       \<and> n_calls ListSubnets tr1 = n_calls ListSubnets tr
       \<and> n_calls ListImages tr1 = n_calls ListImages tr
       \<and> n_calls ListInstances tr1 = n_calls ListInstances tr"
proof -
  from empty have run: "launch_new_instance cfg prov tr = Some (Inl (RuntimeErr NO_ZONES_AVAILABLE), tr1)"
    by (simp add: launch_new_instance_def)
  from empty obtain y where
    call: "execute_api_call cfg ListAvailabilityDomains (list_availability_domains prov) tr = Some y"
    and y: "snd y = tr1"
    by (auto simp: find_availability_domains_def split: option.splits sum.splits prod.splits)
  from execute_api_call_result[OF call] y obtain evs where
    evs: "tr1 = tr @ evs @ [ApiCall ListAvailabilityDomains]"
         "\<forall>ev \<in> set evs. ev = ApiCall ListAvailabilityDomains \<or> ev = Sleep (wait_time_secs cfg)"
    by auto
  from evs(2) have all: "\<forall>ev \<in> set (evs @ [ApiCall ListAvailabilityDomains]).
      ev = ApiCall ListAvailabilityDomains \<or> ev = Sleep (wait_time_secs cfg)"
    by simp
  from evs(1) have tr1: "tr1 = tr @ (evs @ [ApiCall ListAvailabilityDomains])" by simp
  have "n_launches tr1 = n_launches tr"
    unfolding tr1 using quiet_events(1)[OF all] by simp
  moreover have "n_calls ListSubnets tr1 = n_calls ListSubnets tr"
    unfolding tr1 using quiet_calls[OF all, of ListSubnets] by simp
  moreover have "n_calls ListImages tr1 = n_calls ListImages tr"
    unfolding tr1 using quiet_calls[OF all, of ListImages] by simp
  moreover have "n_calls ListInstances tr1 = n_calls ListInstances tr"
    unfolding tr1 using quiet_calls[OF all, of ListInstances] by simp
  ultimately show ?thesis using run evs by blast
qed

theorem no_zones_stops_after_listing_witness:
  "find_availability_domains cfg_no_zone prov_third_accepted [] =
     Some (Inr [], [ApiCall ListAvailabilityDomains])
   \<and> launch_new_instance cfg_no_zone prov_third_accepted [] =
     Some (Inl (RuntimeErr NO_ZONES_AVAILABLE), [ApiCall ListAvailabilityDomains])
   \<and> n_launches [ApiCall ListAvailabilityDomains] = n_launches []
   \<and> n_calls ListSubnets [ApiCall ListAvailabilityDomains] = n_calls ListSubnets []
   \<and> n_calls ListImages [ApiCall ListAvailabilityDomains] = n_calls ListImages []
   \<and> n_calls ListInstances [ApiCall ListAvailabilityDomains] = n_calls ListInstances []"
proof -
  have h: "find_availability_domains cfg_no_zone prov_third_accepted [] =
     Some (Inr [], [ApiCall ListAvailabilityDomains])"
    by code_simp
  from no_zones_stops_after_listing[OF h] h show ?thesis by blast
qed

section \<open>A launch call that fails with the quota code\<close>

text \<open>
  C3. If the launch call fails with code "LimitExceeded", the engine enters the finder
  next, once, and makes no further launch call: the run ends where the finder returns.
  If the finder returns an instance the run returns it; if it returns none the run ends
  with QUOTA_EXCEEDED_OTHER_RESOURCE.
\<close>

theorem quota_error_queries_finder_once:
  assumes rejected: "launch_instance prov (n_launches tr) = Some e"
    and quota: "code e = Some ''LimitExceeded''"
    and finder: "check_for_existing_instance cfg prov
                   (tr @ [LaunchInstance (fst (cycle_next ads pos))]) = Some (Inr found, tr')"
  shows "launch_loop cfg prov ads pos tr =
           Some ((case found of
                    Some inst \<Rightarrow> Inr inst
                  | None \<Rightarrow> Inl (RuntimeErr QUOTA_EXCEEDED_OTHER_RESOURCE)), tr')
       \<and> (\<exists>evs. tr' = tr @ [LaunchInstance (fst (cycle_next ads pos)), CheckForExisting] @ evs
              \<and> (\<forall>ev \<in> set evs. ev = ApiCall ListInstances \<or> ev = Sleep (wait_time_secs cfg)))
       \<and> n_launches tr' = Suc (n_launches tr)
       \<and> n_checks tr' = Suc (n_checks tr)"
proof -
  let ?ad = "fst (cycle_next ads pos)"
  from rejected have att: "attempt cfg prov ?ad tr = Some (Inl (ServiceErr e), tr @ [LaunchInstance ?ad])"
    by (rule attempt_rejected)
  from quota have cl: "classify_launch e = Inr QUOTA_EXCEEDED" by (rule classify_launch_quota)
  note run = launch_loop_quota[OF att cl finder]
  from check_for_existing_instance_result[OF finder] obtain evs where
    evs: "tr' = (tr @ [LaunchInstance ?ad]) @ CheckForExisting # evs"
         "\<forall>ev \<in> set evs. ev = ApiCall ListInstances \<or> ev = Sleep (wait_time_secs cfg)"
    by blast
  from evs(1) have shape: "tr' = tr @ [LaunchInstance ?ad, CheckForExisting] @ evs" by simp
  from check_for_existing_instance_counts[OF finder]
  have "n_launches tr' = Suc (n_launches tr)" and "n_checks tr' = Suc (n_checks tr)"
    by (simp_all add: n_launches_def n_checks_def)
  with run shape evs(2) show ?thesis by blast
qed

theorem quota_error_queries_finder_once_witness:
  "launch_loop cfg_arm prov_quota_found three_ads 1 [] =
     Some (Inr arm_instance,
           [LaunchInstance ''xyz:EU-1-AD-2'', CheckForExisting, ApiCall ListInstances])
   \<and> launch_loop cfg_arm prov_quota_none three_ads 1 [] =
     Some (Inl (RuntimeErr QUOTA_EXCEEDED_OTHER_RESOURCE),
           [LaunchInstance ''xyz:EU-1-AD-2'', CheckForExisting, ApiCall ListInstances])
   \<and> n_launches [LaunchInstance ''xyz:EU-1-AD-2'', CheckForExisting, ApiCall ListInstances] = 1
   \<and> n_checks [LaunchInstance ''xyz:EU-1-AD-2'', CheckForExisting, ApiCall ListInstances] = 1"
proof -
  have q: "code err_quota = Some ''LimitExceeded''" by (simp add: err_quota_def)
  have r1: "launch_instance prov_quota_found (n_launches []) = Some err_quota"
    by (simp add: prov_quota_found_def)
  have r2: "launch_instance prov_quota_none (n_launches []) = Some err_quota"
    by (simp add: prov_quota_none_def)
  have f1: "check_for_existing_instance cfg_arm prov_quota_found
              ([] @ [LaunchInstance (fst (cycle_next three_ads 1))]) =
            Some (Inr (Some arm_instance),
                  [LaunchInstance ''xyz:EU-1-AD-2'', CheckForExisting, ApiCall ListInstances])"
    by code_simp
  have f2: "check_for_existing_instance cfg_arm prov_quota_none
              ([] @ [LaunchInstance (fst (cycle_next three_ads 1))]) =
            Some (Inr None,
                  [LaunchInstance ''xyz:EU-1-AD-2'', CheckForExisting, ApiCall ListInstances])"
    by code_simp
  have z: "fst (cycle_next three_ads 1) = ''xyz:EU-1-AD-2''"
    by (simp add: cycle_next_def three_ads_def)
  from quota_error_queries_finder_once[OF r1 q f1] quota_error_queries_finder_once[OF r2 q f2] z
  show ?thesis by (simp add: n_launches_def n_checks_def)
qed

section \<open>The confirmation poll\<close>

text \<open>
  C4 as stated fails in one point: the loop sleeps 60 after every round that found
  nothing, the fifth included. A run whose launch call is accepted and whose instance
  never appears sleeps five times, and the last event before the failure is a sleep.
\<close>

theorem fifth_round_is_followed_by_a_sleep:
  "launch_new_instance cfg_arm prov_never_listed [] =
     Some (Inl (RuntimeErr VERIFICATION_TIMEOUT),
       [ApiCall ListAvailabilityDomains, LaunchInstance ''xyz:EU-1-AD-2'',
        CheckForExisting, ApiCall ListInstances, Sleep 60,
        CheckForExisting, ApiCall ListInstances, Sleep 60,
        CheckForExisting, ApiCall ListInstances, Sleep 60,
        CheckForExisting, ApiCall ListInstances, Sleep 60,
        CheckForExisting, ApiCall ListInstances, Sleep 60])"
  by code_simp

text \<open>
  C4, amended. After an accepted launch call the engine queries the finder in up to five
  rounds and sleeps 60 after each round that found nothing, the fifth included. If the
  rounds before the sixth that found nothing are followed by a round that finds an
  instance, the run returns that instance; if five rounds find nothing, the run ends
  with VERIFICATION_TIMEOUT after the fifth sleep, with five queries of the finder and
  the one launch call: nothing is retried.
\<close>

theorem accepted_launch_is_polled_five_rounds:
  assumes accepted: "launch_instance prov (n_launches tr) = None"
    and rounds: "none_rounds cfg prov (tr @ [LaunchInstance (fst (cycle_next ads pos))]) ts"
  shows "(length ts = 5 \<longrightarrow>
            launch_loop cfg prov ads pos tr =
              Some (Inl (RuntimeErr VERIFICATION_TIMEOUT), last ts @ [Sleep 60])
            \<and> n_checks (last ts @ [Sleep 60]) = n_checks tr + 5
            \<and> n_launches (last ts @ [Sleep 60]) = Suc (n_launches tr))
       \<and> (length ts < 5
            \<and> check_for_existing_instance cfg prov
                 (after_rounds (tr @ [LaunchInstance (fst (cycle_next ads pos))]) ts)
               = Some (Inr (Some inst), tr') \<longrightarrow>
            launch_loop cfg prov ads pos tr = Some (Inr inst, tr')
            \<and> n_checks tr' = n_checks tr + length ts + 1
            \<and> n_launches tr' = Suc (n_launches tr))"
proof (intro conjI impI)
  let ?ad = "fst (cycle_next ads pos)"
  let ?tr0 = "tr @ [LaunchInstance ?ad]"
  note att = attempt_accepted[OF accepted, of cfg ?ad]
  note cnt = none_rounds_counts[OF rounds]
  {
    assume five: "length ts = 5"
    then have ne: "ts \<noteq> []" by auto
    from confirm_none_rounds[OF rounds, of 0] five
    have "confirm cfg prov 5 ?tr0 = confirm cfg prov 0 (after_rounds ?tr0 ts)" by simp
    also have "\<dots> = Some (Inl (RuntimeErr VERIFICATION_TIMEOUT), last ts @ [Sleep 60])"
      using after_rounds_last[OF ne] by simp
    finally have "attempt cfg prov ?ad tr =
        Some (Inl (RuntimeErr VERIFICATION_TIMEOUT), last ts @ [Sleep 60])"
      using att by simp
    then show "launch_loop cfg prov ads pos tr =
        Some (Inl (RuntimeErr VERIFICATION_TIMEOUT), last ts @ [Sleep 60])"
      by (rule launch_loop_runtime_error)
    from cnt five after_rounds_last[OF ne, of ?tr0]
    show "n_checks (last ts @ [Sleep 60]) = n_checks tr + 5"
      by (simp add: n_checks_def)
    from cnt five after_rounds_last[OF ne, of ?tr0]
    show "n_launches (last ts @ [Sleep 60]) = Suc (n_launches tr)"
      by (simp add: n_launches_def)
  }
  {
    assume found: "length ts < 5
            \<and> check_for_existing_instance cfg prov (after_rounds ?tr0 ts)
               = Some (Inr (Some inst), tr')"
    then have "length ts < 5" by simp
    then obtain n where "5 = Suc (length ts + n)" using less_imp_Suc_add by blast
    then have n: "length ts + Suc n = 5" by simp
    from found have chk: "check_for_existing_instance cfg prov (after_rounds ?tr0 ts)
               = Some (Inr (Some inst), tr')" by simp
    from confirm_none_rounds[OF rounds, of "Suc n"]
    have "confirm cfg prov 5 ?tr0 = confirm cfg prov (Suc n) (after_rounds ?tr0 ts)"
      by (simp only: n)
    also have "\<dots> = Some (Inr inst, tr')" using chk by simp
    finally have "attempt cfg prov ?ad tr = Some (Inr inst, tr')" using att by simp
    then show "launch_loop cfg prov ads pos tr = Some (Inr inst, tr')"
      by (rule launch_loop_success)
    from check_for_existing_instance_counts[OF chk] cnt
    show "n_checks tr' = n_checks tr + length ts + 1"
      by (simp add: n_checks_def)
    from check_for_existing_instance_counts[OF chk] cnt
    show "n_launches tr' = Suc (n_launches tr)"
      by (simp add: n_launches_def)
  }
qed

theorem accepted_launch_is_polled_five_rounds_witness:
  "launch_loop cfg_arm prov_never_listed three_ads 1 [] =
     Some (Inl (RuntimeErr VERIFICATION_TIMEOUT), polled 4 @ [Sleep 60])
   \<and> n_checks (polled 4 @ [Sleep 60]) = 5
   \<and> n_launches (polled 4 @ [Sleep 60]) = 1
   \<and> launch_loop cfg_arm prov_listed_on_third_poll three_ads 1 [] =
     Some (Inr arm_instance, polled 2)
   \<and> n_checks (polled 2) = 3
   \<and> n_launches (polled 2) = 1"
proof -
  have a1: "launch_instance prov_never_listed (n_launches []) = None"
    by (simp add: prov_never_listed_def)
  have a2: "launch_instance prov_listed_on_third_poll (n_launches []) = None"
    by (simp add: prov_listed_on_third_poll_def)
  have r1: "none_rounds cfg_arm prov_never_listed ([] @ [LaunchInstance (fst (cycle_next three_ads 1))])
              [polled 0, polled 1, polled 2, polled 3, polled 4]"
    by code_simp
  have r2: "none_rounds cfg_arm prov_listed_on_third_poll
              ([] @ [LaunchInstance (fst (cycle_next three_ads 1))]) [polled 0, polled 1]"
    by code_simp
  have f2: "check_for_existing_instance cfg_arm prov_listed_on_third_poll
              (after_rounds ([] @ [LaunchInstance (fst (cycle_next three_ads 1))]) [polled 0, polled 1])
            = Some (Inr (Some arm_instance), polled 2)"
    by code_simp
  from accepted_launch_is_polled_five_rounds[OF a1 r1]
  have t: "launch_loop cfg_arm prov_never_listed three_ads 1 [] =
     Some (Inl (RuntimeErr VERIFICATION_TIMEOUT), polled 4 @ [Sleep 60])
   \<and> n_checks (polled 4 @ [Sleep 60]) = 5
   \<and> n_launches (polled 4 @ [Sleep 60]) = 1"
    by (simp add: n_checks_def n_launches_def)
  from accepted_launch_is_polled_five_rounds[OF a2 r2, of arm_instance "polled 2"] f2
  have s: "launch_loop cfg_arm prov_listed_on_third_poll three_ads 1 [] =
     Some (Inr arm_instance, polled 2)
   \<and> n_checks (polled 2) = 3
   \<and> n_launches (polled 2) = 1"
    by (simp add: n_checks_def n_launches_def)
  from t s show ?thesis by blast
qed

section \<open>The availability domain of the first launch call\<close>

text \<open>
  C2. The iterator over the availability domains is advanced once while the request is
  built (line 263, "Start with the first AD") and again at the start of every pass of
  the loop (line 283), so the first launch call goes to the second domain. With three
  domains, two launch calls failing for lack of capacity and the third accepted, the
  calls go to the second, the third and the first domain: the accepted call uses the
  fourth value of the rotation, not the third. The poll finds the instance in its first
  round and the run returns it.
\<close>

theorem first_submission_uses_second_domain:
  "matching_ads cfg_arm three_ads = [''xyz:EU-1-AD-1'', ''xyz:EU-1-AD-2'', ''xyz:EU-1-AD-3'']
   \<and> launch_instance prov_third_accepted 0 = Some err_capacity
   \<and> launch_instance prov_third_accepted 1 = Some err_capacity
   \<and> launch_instance prov_third_accepted 2 = None
   \<and> classify_launch err_capacity = Inr RETRYABLE
   \<and> launch_new_instance cfg_arm prov_third_accepted [] =
       Some (Inr arm_instance,
         [ApiCall ListAvailabilityDomains,
          LaunchInstance ''xyz:EU-1-AD-2'', Sleep 30,
          LaunchInstance ''xyz:EU-1-AD-3'', Sleep 30,
          LaunchInstance ''xyz:EU-1-AD-1'', CheckForExisting, ApiCall ListInstances])"
  by code_simp

section \<open>Classification of errors without the quota code\<close>

text \<open>
  C5. The claim holds for every error whose message is a string
  (\<open>classify_with_message\<close>), but not for every error. The error with status 400, code
  "InvalidParameter" and no message has another code than the quota code and meets none
  of the three retry conditions, yet neither handler classifies it FATAL: a launch call
  that fails with it ends the loop with \<open>TypeError\<close> instead of the provider's error,
  and so does the wrapper when \<open>list_instances\<close> raises it.
\<close>

theorem other_error_without_message_is_not_fatal:
  "code err_no_message \<noteq> Some ''LimitExceeded''
   \<and> status err_no_message \<notin> {429, 500, 502, 503, 504}
   \<and> code err_no_message \<noteq> Some ''TooManyRequests''
   \<and> message err_no_message = None
   \<and> classify_launch err_no_message \<noteq> Inr FATAL
   \<and> classify_api_call err_no_message \<noteq> Inr FATAL
   \<and> launch_loop cfg_arm prov_no_message three_ads 1 [] =
       Some (Inl TypeError, [LaunchInstance ''xyz:EU-1-AD-2''])
   \<and> check_for_existing_instance cfg_arm prov_no_message_on_list [] =
       Some (Inl TypeError, [CheckForExisting, ApiCall ListInstances])"
  by code_simp

section \<open>Retryable errors\<close>




section \<open>Which instance the finder selects\<close>

text \<open>
  C8 as stated fails for the ARM shape: there the request for a second instance is not
  looked at, and of two qualifying instances the first listed is returned.
\<close>

theorem second_ordinal_ignored_for_arm_shape:
  "compute_shape cfg_arm_second = ARM_SHAPE
   \<and> is_second_micro_instance cfg_arm_second
   \<and> check_for_existing_instance cfg_arm_second (prov_lists [arm_x, arm_y, micro_z]) [] =
       Some (Inr (Some arm_x), [CheckForExisting, ApiCall ListInstances])
   \<and> arm_x \<noteq> arm_y"
  by code_simp

text \<open>
  C8, amended. Let the configured shape be one of the two valid shapes, and let the
  provider list any instances. An instance qualifies when it has the configured shape and
  its state is RUNNING, PROVISIONING or STARTING; this set is fixed. With the micro shape
  and the second instance asked for, the finder returns none when fewer than two
  instances qualify, and otherwise the most recently listed qualifying instance: the
  last of the qualifying ones, after which no listed instance qualifies. In every other
  case (the micro shape with the first instance asked for, or the ARM shape whatever is
  asked for) it returns none when no instance qualifies, and otherwise the earliest
  listed qualifying instance, before which no listed instance qualifies. In particular,
  for the list X, Y, Z, all RUNNING, where X and Y have the configured shape and Z has
  another, it returns Y with the micro shape and the second instance asked for, and X
  otherwise; and when every listed instance is STOPPED it returns none.
\<close>

theorem finder_ordinal_selection:
  assumes listed: "list_instances prov (n_calls ListInstances tr) = Inr instances"
    and valid: "compute_shape cfg \<in> set VALID_SHAPES"
  shows "check_for_existing_instance cfg prov tr =
           Some (Inr (if compute_shape cfg = E2_MICRO_SHAPE \<and> is_second_micro_instance cfg
                      then (if 2 \<le> length (filter (qualifies cfg) instances)
                            then Some (last (filter (qualifies cfg) instances)) else None)
                      else (if 1 \<le> length (filter (qualifies cfg) instances)
                            then Some (hd (filter (qualifies cfg) instances)) else None)),
                 tr @ [CheckForExisting, ApiCall ListInstances])
       \<and> (filter (qualifies cfg) instances \<noteq> [] \<longrightarrow>
            (\<exists>pre post. instances = pre @ hd (filter (qualifies cfg) instances) # post
                 \<and> (\<forall>i \<in> set pre. \<not> qualifies cfg i))
          \<and> (\<exists>pre post. instances = pre @ last (filter (qualifies cfg) instances) # post
                 \<and> (\<forall>i \<in> set post. \<not> qualifies cfg i)))
       \<and> (\<forall>X Y Z. instances = [X, Y, Z]
              \<and> shape X = compute_shape cfg \<and> shape Y = compute_shape cfg
              \<and> shape Z \<noteq> compute_shape cfg
              \<and> lifecycle_state X = ''RUNNING'' \<and> lifecycle_state Y = ''RUNNING''
              \<and> lifecycle_state Z = ''RUNNING'' \<longrightarrow>
            check_for_existing_instance cfg prov tr =
              Some (Inr (Some (if compute_shape cfg = E2_MICRO_SHAPE \<and> is_second_micro_instance cfg
                               then Y else X)),
                    tr @ [CheckForExisting, ApiCall ListInstances]))
       \<and> ((\<forall>i \<in> set instances. lifecycle_state i = ''STOPPED'') \<longrightarrow>
            check_for_existing_instance cfg prov tr =
              Some (Inr None, tr @ [CheckForExisting, ApiCall ListInstances]))"
proof -
  let ?qs = "filter (qualifies cfg) instances"
  let ?found = "if compute_shape cfg = E2_MICRO_SHAPE \<and> is_second_micro_instance cfg
                then (if 2 \<le> length ?qs then Some (last ?qs) else None)
                else (if 1 \<le> length ?qs then Some (hd ?qs) else None)"
  from valid have shape: "compute_shape cfg = ARM_SHAPE \<or> compute_shape cfg = E2_MICRO_SHAPE"
    by (simp add: VALID_SHAPES_def)
  from shape have sel: "select_existing cfg instances = ?found"
    using shapes_differ
    by (auto simp: select_existing_def Let_def target_instances_qualifies Suc_le_eq)
  with check_for_existing_instance_listed[OF listed, of cfg]
  have run: "check_for_existing_instance cfg prov tr =
      Some (Inr ?found, tr @ [CheckForExisting, ApiCall ListInstances])"
    by simp
  have pos: "?qs \<noteq> [] \<longrightarrow>
            (\<exists>pre post. instances = pre @ hd ?qs # post \<and> (\<forall>i \<in> set pre. \<not> qualifies cfg i))
          \<and> (\<exists>pre post. instances = pre @ last ?qs # post \<and> (\<forall>i \<in> set post. \<not> qualifies cfg i))"
    using first_of_filter[of "qualifies cfg" instances] last_of_filter[of "qualifies cfg" instances]
    by blast
  have scenario: "\<forall>X Y Z. instances = [X, Y, Z]
              \<and> shape X = compute_shape cfg \<and> shape Y = compute_shape cfg
              \<and> shape Z \<noteq> compute_shape cfg
              \<and> lifecycle_state X = ''RUNNING'' \<and> lifecycle_state Y = ''RUNNING''
              \<and> lifecycle_state Z = ''RUNNING'' \<longrightarrow>
            check_for_existing_instance cfg prov tr =
              Some (Inr (Some (if compute_shape cfg = E2_MICRO_SHAPE \<and> is_second_micro_instance cfg
                               then Y else X)),
                    tr @ [CheckForExisting, ApiCall ListInstances])"
  proof (intro allI impI)
    fix X Y Z
    assume a: "instances = [X, Y, Z]
              \<and> shape X = compute_shape cfg \<and> shape Y = compute_shape cfg
              \<and> shape Z \<noteq> compute_shape cfg
              \<and> lifecycle_state X = ''RUNNING'' \<and> lifecycle_state Y = ''RUNNING''
              \<and> lifecycle_state Z = ''RUNNING''"
    then have "?qs = [X, Y]" by (simp add: qualifies_def)
    then have "?found = Some (if compute_shape cfg = E2_MICRO_SHAPE \<and> is_second_micro_instance cfg
                               then Y else X)"
      by simp
    with run show "check_for_existing_instance cfg prov tr =
              Some (Inr (Some (if compute_shape cfg = E2_MICRO_SHAPE \<and> is_second_micro_instance cfg
                               then Y else X)),
                    tr @ [CheckForExisting, ApiCall ListInstances])"
      by simp
  qed
  have stopped: "(\<forall>i \<in> set instances. lifecycle_state i = ''STOPPED'') \<longrightarrow>
            check_for_existing_instance cfg prov tr =
              Some (Inr None, tr @ [CheckForExisting, ApiCall ListInstances])"
  proof
    assume "\<forall>i \<in> set instances. lifecycle_state i = ''STOPPED''"
    then have "?qs = []" by (auto simp: filter_empty_conv qualifies_def)
    then have "?found = None" by simp
    with run show "check_for_existing_instance cfg prov tr =
              Some (Inr None, tr @ [CheckForExisting, ApiCall ListInstances])"
      by simp
  qed
  from run pos scenario stopped show ?thesis by blast
qed

theorem finder_ordinal_selection_witness:
  "check_for_existing_instance cfg_micro_second
       (prov_lists [micro_x, micro_y, arm_z]) [] =
     Some (Inr (Some micro_y), [CheckForExisting, ApiCall ListInstances])
   \<and> check_for_existing_instance cfg_micro_first
       (prov_lists [micro_x, micro_y, arm_z]) [] =
     Some (Inr (Some micro_x), [CheckForExisting, ApiCall ListInstances])
   \<and> check_for_existing_instance cfg_arm_second
       (prov_lists [arm_x, arm_y, micro_z]) [] =
     Some (Inr (Some arm_x), [CheckForExisting, ApiCall ListInstances])
   \<and> check_for_existing_instance cfg_micro_second
       (prov_lists [micro_x, arm_z]) [] =
     Some (Inr (None), [CheckForExisting, ApiCall ListInstances])
   \<and> check_for_existing_instance cfg_micro_second
       (prov_lists [micro_x, micro_y, micro_z]) [] =
     Some (Inr (Some micro_z), [CheckForExisting, ApiCall ListInstances])
   \<and> check_for_existing_instance cfg_micro_first
       (prov_lists [arm_z, micro_x\<lparr>lifecycle_state := ''STARTING''\<rparr>]) [] =
     Some (Inr (Some (micro_x\<lparr>lifecycle_state := ''STARTING''\<rparr>)), [CheckForExisting, ApiCall ListInstances])
   \<and> check_for_existing_instance cfg_micro_second
       (prov_lists [micro_x\<lparr>lifecycle_state := ''STOPPED''\<rparr>, micro_y\<lparr>lifecycle_state := ''STOPPED''\<rparr>,
        arm_z\<lparr>lifecycle_state := ''STOPPED''\<rparr>]) [] =
     Some (Inr (None), [CheckForExisting, ApiCall ListInstances])"
proof -
  have l1: "list_instances (prov_lists [micro_x, micro_y, arm_z])
             (n_calls ListInstances []) = Inr [micro_x, micro_y, arm_z]"
    by (simp add: prov_lists_def)
  have v1: "compute_shape cfg_micro_second \<in> set VALID_SHAPES" by code_simp
  have e1: "(if compute_shape cfg_micro_second = E2_MICRO_SHAPE \<and> is_second_micro_instance cfg_micro_second
             then (if 2 \<le> length (filter (qualifies cfg_micro_second) [micro_x, micro_y, arm_z])
                   then Some (last (filter (qualifies cfg_micro_second) [micro_x, micro_y, arm_z])) else None)
             else (if 1 \<le> length (filter (qualifies cfg_micro_second) [micro_x, micro_y, arm_z])
                   then Some (hd (filter (qualifies cfg_micro_second) [micro_x, micro_y, arm_z])) else None)) = Some micro_y"
    by code_simp
  have r1: "check_for_existing_instance cfg_micro_second
       (prov_lists [micro_x, micro_y, arm_z]) [] =
     Some (Inr (Some micro_y), [CheckForExisting, ApiCall ListInstances])"
    using finder_ordinal_selection[OF l1 v1, THEN conjunct1] unfolding e1 by simp
  have l2: "list_instances (prov_lists [micro_x, micro_y, arm_z])
             (n_calls ListInstances []) = Inr [micro_x, micro_y, arm_z]"
    by (simp add: prov_lists_def)
  have v2: "compute_shape cfg_micro_first \<in> set VALID_SHAPES" by code_simp
  have e2: "(if compute_shape cfg_micro_first = E2_MICRO_SHAPE \<and> is_second_micro_instance cfg_micro_first
             then (if 2 \<le> length (filter (qualifies cfg_micro_first) [micro_x, micro_y, arm_z])
                   then Some (last (filter (qualifies cfg_micro_first) [micro_x, micro_y, arm_z])) else None)
             else (if 1 \<le> length (filter (qualifies cfg_micro_first) [micro_x, micro_y, arm_z])
                   then Some (hd (filter (qualifies cfg_micro_first) [micro_x, micro_y, arm_z])) else None)) = Some micro_x"
    by code_simp
  have r2: "check_for_existing_instance cfg_micro_first
       (prov_lists [micro_x, micro_y, arm_z]) [] =
     Some (Inr (Some micro_x), [CheckForExisting, ApiCall ListInstances])"
    using finder_ordinal_selection[OF l2 v2, THEN conjunct1] unfolding e2 by simp
  have l3: "list_instances (prov_lists [arm_x, arm_y, micro_z])
             (n_calls ListInstances []) = Inr [arm_x, arm_y, micro_z]"
    by (simp add: prov_lists_def)
  have v3: "compute_shape cfg_arm_second \<in> set VALID_SHAPES" by code_simp
  have e3: "(if compute_shape cfg_arm_second = E2_MICRO_SHAPE \<and> is_second_micro_instance cfg_arm_second
             then (if 2 \<le> length (filter (qualifies cfg_arm_second) [arm_x, arm_y, micro_z])
                   then Some (last (filter (qualifies cfg_arm_second) [arm_x, arm_y, micro_z])) else None)
             else (if 1 \<le> length (filter (qualifies cfg_arm_second) [arm_x, arm_y, micro_z])
                   then Some (hd (filter (qualifies cfg_arm_second) [arm_x, arm_y, micro_z])) else None)) = Some arm_x"
    by code_simp
  have r3: "check_for_existing_instance cfg_arm_second
       (prov_lists [arm_x, arm_y, micro_z]) [] =
     Some (Inr (Some arm_x), [CheckForExisting, ApiCall ListInstances])"
    using finder_ordinal_selection[OF l3 v3, THEN conjunct1] unfolding e3 by simp
  have l4: "list_instances (prov_lists [micro_x, arm_z])
             (n_calls ListInstances []) = Inr [micro_x, arm_z]"
    by (simp add: prov_lists_def)
  have v4: "compute_shape cfg_micro_second \<in> set VALID_SHAPES" by code_simp
  have e4: "(if compute_shape cfg_micro_second = E2_MICRO_SHAPE \<and> is_second_micro_instance cfg_micro_second
             then (if 2 \<le> length (filter (qualifies cfg_micro_second) [micro_x, arm_z])
                   then Some (last (filter (qualifies cfg_micro_second) [micro_x, arm_z])) else None)
             else (if 1 \<le> length (filter (qualifies cfg_micro_second) [micro_x, arm_z])
                   then Some (hd (filter (qualifies cfg_micro_second) [micro_x, arm_z])) else None)) = None"
    by code_simp
  have r4: "check_for_existing_instance cfg_micro_second
       (prov_lists [micro_x, arm_z]) [] =
     Some (Inr (None), [CheckForExisting, ApiCall ListInstances])"
    using finder_ordinal_selection[OF l4 v4, THEN conjunct1] unfolding e4 by simp
  have l5: "list_instances (prov_lists [micro_x, micro_y, micro_z])
             (n_calls ListInstances []) = Inr [micro_x, micro_y, micro_z]"
    by (simp add: prov_lists_def)
  have v5: "compute_shape cfg_micro_second \<in> set VALID_SHAPES" by code_simp
  have e5: "(if compute_shape cfg_micro_second = E2_MICRO_SHAPE \<and> is_second_micro_instance cfg_micro_second
             then (if 2 \<le> length (filter (qualifies cfg_micro_second) [micro_x, micro_y, micro_z])
                   then Some (last (filter (qualifies cfg_micro_second) [micro_x, micro_y, micro_z])) else None)
             else (if 1 \<le> length (filter (qualifies cfg_micro_second) [micro_x, micro_y, micro_z])
                   then Some (hd (filter (qualifies cfg_micro_second) [micro_x, micro_y, micro_z])) else None)) = Some micro_z"
    by code_simp
  have r5: "check_for_existing_instance cfg_micro_second
       (prov_lists [micro_x, micro_y, micro_z]) [] =
     Some (Inr (Some micro_z), [CheckForExisting, ApiCall ListInstances])"
    using finder_ordinal_selection[OF l5 v5, THEN conjunct1] unfolding e5 by simp
  have l6: "list_instances (prov_lists [arm_z, micro_x\<lparr>lifecycle_state := ''STARTING''\<rparr>])
             (n_calls ListInstances []) = Inr [arm_z, micro_x\<lparr>lifecycle_state := ''STARTING''\<rparr>]"
    by (simp add: prov_lists_def)
  have v6: "compute_shape cfg_micro_first \<in> set VALID_SHAPES" by code_simp
  have e6: "(if compute_shape cfg_micro_first = E2_MICRO_SHAPE \<and> is_second_micro_instance cfg_micro_first
             then (if 2 \<le> length (filter (qualifies cfg_micro_first) [arm_z, micro_x\<lparr>lifecycle_state := ''STARTING''\<rparr>])
                   then Some (last (filter (qualifies cfg_micro_first) [arm_z, micro_x\<lparr>lifecycle_state := ''STARTING''\<rparr>])) else None)
             else (if 1 \<le> length (filter (qualifies cfg_micro_first) [arm_z, micro_x\<lparr>lifecycle_state := ''STARTING''\<rparr>])
                   then Some (hd (filter (qualifies cfg_micro_first) [arm_z, micro_x\<lparr>lifecycle_state := ''STARTING''\<rparr>])) else None)) = Some (micro_x\<lparr>lifecycle_state := ''STARTING''\<rparr>)"
    by code_simp
  have r6: "check_for_existing_instance cfg_micro_first
       (prov_lists [arm_z, micro_x\<lparr>lifecycle_state := ''STARTING''\<rparr>]) [] =
     Some (Inr (Some (micro_x\<lparr>lifecycle_state := ''STARTING''\<rparr>)), [CheckForExisting, ApiCall ListInstances])"
    using finder_ordinal_selection[OF l6 v6, THEN conjunct1] unfolding e6 by simp
  have l7: "list_instances (prov_lists [micro_x\<lparr>lifecycle_state := ''STOPPED''\<rparr>, micro_y\<lparr>lifecycle_state := ''STOPPED''\<rparr>,
        arm_z\<lparr>lifecycle_state := ''STOPPED''\<rparr>])
             (n_calls ListInstances []) = Inr [micro_x\<lparr>lifecycle_state := ''STOPPED''\<rparr>, micro_y\<lparr>lifecycle_state := ''STOPPED''\<rparr>,
        arm_z\<lparr>lifecycle_state := ''STOPPED''\<rparr>]"
    by (simp add: prov_lists_def)
  have v7: "compute_shape cfg_micro_second \<in> set VALID_SHAPES" by code_simp
  have e7: "(if compute_shape cfg_micro_second = E2_MICRO_SHAPE \<and> is_second_micro_instance cfg_micro_second
             then (if 2 \<le> length (filter (qualifies cfg_micro_second) [micro_x\<lparr>lifecycle_state := ''STOPPED''\<rparr>, micro_y\<lparr>lifecycle_state := ''STOPPED''\<rparr>,
        arm_z\<lparr>lifecycle_state := ''STOPPED''\<rparr>])
                   then Some (last (filter (qualifies cfg_micro_second) [micro_x\<lparr>lifecycle_state := ''STOPPED''\<rparr>, micro_y\<lparr>lifecycle_state := ''STOPPED''\<rparr>,
        arm_z\<lparr>lifecycle_state := ''STOPPED''\<rparr>])) else None)
             else (if 1 \<le> length (filter (qualifies cfg_micro_second) [micro_x\<lparr>lifecycle_state := ''STOPPED''\<rparr>, micro_y\<lparr>lifecycle_state := ''STOPPED''\<rparr>,
        arm_z\<lparr>lifecycle_state := ''STOPPED''\<rparr>])
                   then Some (hd (filter (qualifies cfg_micro_second) [micro_x\<lparr>lifecycle_state := ''STOPPED''\<rparr>, micro_y\<lparr>lifecycle_state := ''STOPPED''\<rparr>,
        arm_z\<lparr>lifecycle_state := ''STOPPED''\<rparr>])) else None)) = None"
    by code_simp
  have r7: "check_for_existing_instance cfg_micro_second
       (prov_lists [micro_x\<lparr>lifecycle_state := ''STOPPED''\<rparr>, micro_y\<lparr>lifecycle_state := ''STOPPED''\<rparr>,
        arm_z\<lparr>lifecycle_state := ''STOPPED''\<rparr>]) [] =
     Some (Inr (None), [CheckForExisting, ApiCall ListInstances])"
    using finder_ordinal_selection[OF l7 v7, THEN conjunct1] unfolding e7 by simp
  from r1 r2 r3 r4 r5 r6 r7 show ?thesis by blast
qed

end
